theory Spec2Isabelle
  imports Complex_Main "HOL-Library.AList" "HOL-Library.Char_ord" "HOL-Library.List_Lexorder"
begin

section \<open>Python values and dictionaries\<close>

text \<open>
  The metrics writer of \<^verbatim>\<open>training_loop.py\<close> checks the dynamic type of its arguments, so
  they are modelled as Python values. A dictionary is an association list in insertion
  order with distinct keys (string keys only). Python's \<^verbatim>\<open>bool\<close>, a subclass of
  \<^verbatim>\<open>int\<close>, and containers other than \<^verbatim>\<open>dict\<close> are not among the modelled values.
\<close>

datatype pyval =
    PNone
  | PInt int
  | PFloat real
  | PStr string
  | PDict "(string \<times> pyval) list"

type_synonym pydict = "(string \<times> pyval) list"

text \<open>
  The exceptions that occur in the modelled code. \<open>SummaryError\<close> is the exception with
  which \<^verbatim>\<open>tf.summary.scalar\<close> refuses a value or a step, whatever its Python class.
\<close>

datatype exn =
    TypeError
  | KeyError
  | ZeroDivisionError
  | FailedPreconditionError
  | NotFoundError
  | InternalError
  | SummaryError
  | OtherError string

datatype 'a outcome = Normal 'a | Raised exn

fun is_dict :: "pyval \<Rightarrow> bool" where
  "is_dict (PDict kvs) = True"
| "is_dict v = False"

fun is_int :: "pyval \<Rightarrow> bool" where
  "is_int (PInt i) = True"
| "is_int v = False"

text \<open>\<^verbatim>\<open>d[k] = v\<close>: an existing key keeps its position, a new key goes last.\<close>

definition dict_set :: "pydict \<Rightarrow> string \<Rightarrow> pyval \<Rightarrow> pydict" where
  "dict_set d k v = AList.update k v d"

text \<open>\<^verbatim>\<open>d.update(e)\<close>: the entries of \<open>e\<close> are stored one by one, in order.\<close>

definition dict_update :: "pydict \<Rightarrow> pydict \<Rightarrow> pydict" where
  "dict_update d e = fold (\<lambda>(k, v) acc. dict_set acc k v) e d"

text \<open>\<^verbatim>\<open>d.pop(k)\<close> with no default: KeyError when the key is missing.\<close>

definition dict_pop :: "pydict \<Rightarrow> string \<Rightarrow> pydict option" where
  "dict_pop d k = (case map_of d k of None \<Rightarrow> None | Some v \<Rightarrow> Some (AList.delete k d))"

text \<open>\<^verbatim>\<open>collections.OrderedDict(pairs)\<close>.\<close>

definition ordered_dict :: "(string \<times> pyval) list \<Rightarrow> pydict" where
  "ordered_dict ps = dict_update [] ps"

text \<open>
  \<^verbatim>\<open>tree.flatten_with_path\<close>: the leaves of a nested dictionary with the tuple of keys leading
  to each, dictionaries visited in sorted key order; a value that is not a dictionary is
  a leaf with the empty path.
\<close>

primrec flatten_with_path :: "pyval \<Rightarrow> (string list \<times> pyval) list" where
  "flatten_with_path PNone = [([], PNone)]"
| "flatten_with_path (PInt i) = [([], PInt i)]"
| "flatten_with_path (PFloat x) = [([], PFloat x)]"
| "flatten_with_path (PStr s) = [([], PStr s)]"
| "flatten_with_path (PDict kvs) =
     concat (map (\<lambda>(k, sub). map (\<lambda>(path, item). (k # path, item)) sub)
       (sort_key fst (map (map_prod id flatten_with_path) kvs)))"

text \<open>\<^verbatim>\<open>sep.join(parts)\<close>.\<close>

fun join :: "string \<Rightarrow> string list \<Rightarrow> string" where
  "join sep [] = []"
| "join sep [x] = x"
| "join sep (x # y # ys) = x @ sep @ join sep (y # ys)"

text \<open>\<^verbatim>\<open>xs[:n]\<close>, for a list or the rows of a data frame.\<close>

definition slice_to :: "int \<Rightarrow> 'a list \<Rightarrow> 'a list" where
  "slice_to n xs = (if 0 \<le> n then take (nat n) xs else take (length xs - nat (- n)) xs)"

section \<open>The metrics writer\<close>

text \<open>
  The streaming sink is the list of scalar events (name, value, step) written so far. The
  metrics table is the content of \<^verbatim>\<open>metrics.csv\<close>: \<open>None\<close> when the file does not exist,
  otherwise its rows in order, each row the flattened metrics of one write: the cells of
  the row that hold a value, by column name. A column that a row has no entry for is an
  empty cell of that row. A cell is kept as the value that was written: what pandas makes
  of a value on its way through the file and \<^verbatim>\<open>append\<close> (an integer may come back as the
  float of the same value) is left out.
\<close>

type_synonym row = pydict
type_synonym event = "string \<times> pyval \<times> int"

record metrics_store =
  summary :: "event list"
  metrics_csv :: "row list option"

text \<open>Lines 91-100 of \<^verbatim>\<open>_write_metrics\<close>: the flattened metrics of one write.\<close>

definition flat_metrics :: "pyval \<Rightarrow> pyval \<Rightarrow> pyval \<Rightarrow> pydict" where
  "flat_metrics train_metrics eval_metrics round_num =
     ordered_dict (map (\<lambda>(path, item). (join ''/'' path, item))
       (flatten_with_path
          (PDict [(''train'', train_metrics), (''eval'', eval_metrics), (''round'', round_num)])))"

text \<open>
  What \<^verbatim>\<open>tf.summary.scalar(name, val, step=round_num)\<close> takes: as the value a number (a
  float, or an integer of 64 bits), not \<^verbatim>\<open>None\<close> and not a string, and as the step an
  integer of 64 bits.
\<close>

definition int64 :: "int \<Rightarrow> bool" where
  "int64 i = (- (2 ^ 63) \<le> i \<and> i < 2 ^ 63)"

fun is_scalar :: "pyval \<Rightarrow> bool" where
  "is_scalar (PInt i) = int64 i"
| "is_scalar (PFloat x) = True"
| "is_scalar v = False"

text \<open>
  Lines 104-106, the loop over the flattened metrics: one scalar event per metric, in
  order. The first metric that \<^verbatim>\<open>tf.summary.scalar\<close> refuses ends the loop with its
  exception; the events before it have been written.
\<close>

fun summary_scalars ::
  "int \<Rightarrow> (string \<times> pyval) list \<Rightarrow> 'a metrics_store_scheme \<Rightarrow>
     unit outcome \<times> 'a metrics_store_scheme" where
  "summary_scalars step [] st = (Normal (), st)"
| "summary_scalars step ((name, val) # rest) st =
     (if is_scalar val \<and> int64 step
      then summary_scalars step rest (st\<lparr>summary := summary st @ [(name, val, step)]\<rparr>)
      else (Raised SummaryError, st))"

text \<open>
  \<^verbatim>\<open>_write_metrics\<close> (lines 82-116). The three type checks come first; then one scalar
  event per flattened metric goes to the sink, and an exception there leaves the writer
  before the table is read; then the table is read, cut to its first \<open>round_num\<close> rows
  (\<^verbatim>\<open>metrics[:round_num]\<close>, a slice by position), the new row is appended and the table is
  written back; a missing file becomes a table of one row.
\<close>

definition write_metrics ::
  "pyval \<Rightarrow> pyval \<Rightarrow> pyval \<Rightarrow> 'a metrics_store_scheme \<Rightarrow>
     unit outcome \<times> 'a metrics_store_scheme" where
  "write_metrics train_metrics eval_metrics round_num st =
     (if \<not> is_dict train_metrics then (Raised TypeError, st)
      else if \<not> is_dict eval_metrics then (Raised TypeError, st)
      else case round_num of
        PInt r \<Rightarrow>
          (let flat = flat_metrics train_metrics eval_metrics round_num in
           case summary_scalars r flat st of
             (Raised e, st1) \<Rightarrow> (Raised e, st1)
           | (Normal u, st1) \<Rightarrow>
               (let metrics = (case metrics_csv st1 of
                                 Some rows \<Rightarrow> slice_to r rows @ [flat]
                               | None \<Rightarrow> [flat])
                in (Normal (), st1\<lparr>metrics_csv := Some metrics\<rparr>)))
      | _ \<Rightarrow> (Raised TypeError, st))"

text \<open>The round number of a table row: its \<^verbatim>\<open>round\<close> column.\<close>

definition round_of :: "row \<Rightarrow> pyval option" where
  "round_of r = map_of r ''round''"

section \<open>The checkpoint store\<close>

text \<open>
  Modelled from the spec: \<^verbatim>\<open>FileCheckpointManager\<close> (\<^verbatim>\<open>checkpoint_manager.py\<close>) is not among
  the sources. Following section 4.1 of the specification, the store holds the saved
  (round number, state) pairs, newest first; \<^verbatim>\<open>save\<close> adds one, and \<^verbatim>\<open>loadLatest\<close> returns
  the checkpoint with the highest round number, or the no-checkpoint signal on an empty
  store (among equal round numbers, the one saved last).
\<close>

type_synonym 'st checkpoint_store = "(int \<times> 'st) list"

fun load_latest_checkpoint :: "'st checkpoint_store \<Rightarrow> ('st \<times> int) option" where
  "load_latest_checkpoint [] = None"
| "load_latest_checkpoint ((r, s) # cs) =
     (case load_latest_checkpoint cs of
        None \<Rightarrow> Some (s, r)
      | Some (s', r') \<Rightarrow> if r < r' then Some (s', r') else Some (s, r))"

definition save_checkpoint :: "'st \<Rightarrow> int \<Rightarrow> 'st checkpoint_store \<Rightarrow> 'st checkpoint_store" where
  "save_checkpoint s r cs = (r, s) # cs"

section \<open>The training loop\<close>

text \<open>The flags read by \<^verbatim>\<open>run\<close>.\<close>

record flags =
  total_rounds :: int
  rounds_per_eval :: int
  rounds_per_checkpoint :: int

record 'st iteration_result =
  result_state :: 'st
  result_metrics :: pydict

text \<open>
  The collaborators of \<^verbatim>\<open>run\<close>. They are effectful, so each takes the number of the loop
  iteration that calls it: the same round may get other clients, or another result, on
  another attempt. \<open>process_next\<close> is \<^verbatim>\<open>iterative_process.next\<close>, the one call inside the
  \<^verbatim>\<open>try\<close>. \<open>model_delta_l2\<close> stands for \<^verbatim>\<open>_compute_numpy_l2_difference\<close> on the models of
  two states, and \<open>secs\<close> for the differences of \<^verbatim>\<open>time.time()\<close> readings stored under the
  named key: floating point and real time are not modelled. Of the collaborators only
  \<^verbatim>\<open>next\<close> is taken to raise; the others, the checkpoint store included, return. The
  collaborators are typed, so the three argument checks at the entry of \<^verbatim>\<open>run\<close> have no
  counterpart here.
\<close>

record ('st, 'd) env =
  initialize :: 'st
  process_next :: "nat \<Rightarrow> 'st \<Rightarrow> 'd \<Rightarrow> 'st iteration_result outcome"
  client_datasets_fn :: "nat \<Rightarrow> int \<Rightarrow> 'd \<times> string list"
  evaluate_fn :: "nat \<Rightarrow> 'st \<Rightarrow> bool \<Rightarrow> pydict"
  model_delta_l2 :: "'st \<Rightarrow> 'st \<Rightarrow> real"
  secs :: "nat \<Rightarrow> string \<Rightarrow> real"

text \<open>
  What outlives a call of \<^verbatim>\<open>run\<close>: the metrics sink and table, the checkpoint store, the
  process-wide default executor (the number of times \<^verbatim>\<open>set_default_executor()\<close> rebuilt it)
  and the number of loop iterations begun so far.
\<close>

record 'st world = metrics_store +
  checkpoints :: "'st checkpoint_store"
  executor_rebuilds :: nat
  calls :: nat

text \<open>The world together with the local variables of \<^verbatim>\<open>run\<close>.\<close>

record 'st loop_state = "'st world" +
  state :: 'st
  round_num :: int
  unique_clients :: "string set"
  train_metrics :: pydict

text \<open>The exceptions caught by the \<^verbatim>\<open>except\<close> clause of lines 199-200.\<close>

definition transient :: "exn \<Rightarrow> bool" where
  "transient e = (e = FailedPreconditionError \<or> e = NotFoundError \<or> e = InternalError)"

text \<open>
  Lines 155-184: the state is the loaded checkpoint's with the round after it, or the
  initial state with round 0; the set of clients seen starts empty. The directories and
  the snapshot of the hyperparameters (lines 157-168 and 180-182) are left out: nothing
  below reads them. The train metrics are assigned at the start of every iteration; they
  start as the empty dictionary here.
\<close>

definition startup :: "('st, 'd) env \<Rightarrow> 'st world \<Rightarrow> 'st loop_state" where
  "startup env w =
     (let initial_state = initialize env in
      case load_latest_checkpoint (checkpoints w) of
        None \<Rightarrow> world.extend w (loop_state.fields initial_state 0 {} [])
      | Some (s, r) \<Rightarrow> world.extend w (loop_state.fields s (r + 1) {} []))"

text \<open>
  Lines 223-228, after a successful round: the checkpoint, when the round number is a
  multiple of \<^verbatim>\<open>rounds_per_checkpoint\<close> or the round is the last one. \<open>n\<close> is the
  iteration's number. Python's \<^verbatim>\<open>%\<close> on integers is \<open>mod\<close> on \<open>int\<close> (the result has the
  sign of the divisor), but for the divisor 0, where Python raises.
\<close>

definition maybe_checkpoint ::
  "flags \<Rightarrow> ('st, 'd) env \<Rightarrow> nat \<Rightarrow> 'st loop_state \<Rightarrow> unit outcome \<times> 'st loop_state" where
  "maybe_checkpoint cfg env n ls =
     (if rounds_per_checkpoint cfg = 0 then (Raised ZeroDivisionError, ls)
      else if round_num ls mod rounds_per_checkpoint cfg = 0 \<or>
              round_num ls = total_rounds cfg - 1
      then (Normal (),
            ls\<lparr>checkpoints := save_checkpoint (state ls) (round_num ls) (checkpoints ls),
               train_metrics := dict_set (train_metrics ls) ''save_checkpoint_secs''
                                  (PFloat (secs env n ''save_checkpoint_secs''))\<rparr>)
      else (Normal (), ls))"

text \<open>
  Lines 230-235: the evaluation on the validation data and the metrics row of the round,
  when the round number is a multiple of \<^verbatim>\<open>rounds_per_eval\<close>.
\<close>

definition maybe_evaluate ::
  "flags \<Rightarrow> ('st, 'd) env \<Rightarrow> nat \<Rightarrow> 'st loop_state \<Rightarrow> unit outcome \<times> 'st loop_state" where
  "maybe_evaluate cfg env n ls =
     (if rounds_per_eval cfg = 0 then (Raised ZeroDivisionError, ls)
      else if round_num ls mod rounds_per_eval cfg = 0 then
        (let eval_metrics = dict_set (evaluate_fn env n (state ls) False) ''evaluate_secs''
                              (PFloat (secs env n ''evaluate_secs''))
         in write_metrics (PDict (train_metrics ls)) (PDict eval_metrics)
              (PInt (round_num ls)) ls)
      else (Normal (), ls))"

text \<open>Lines 223-236: the checkpoint, the evaluation, and the increment of the round number.\<close>

definition checkpoint_and_eval ::
  "flags \<Rightarrow> ('st, 'd) env \<Rightarrow> nat \<Rightarrow> 'st loop_state \<Rightarrow> unit outcome \<times> 'st loop_state" where
  "checkpoint_and_eval cfg env n ls =
     (case maybe_checkpoint cfg env n ls of
        (Raised e, ls1) \<Rightarrow> (Raised e, ls1)
      | (Normal u, ls1) \<Rightarrow>
          (case maybe_evaluate cfg env n ls1 of
             (Raised e, ls2) \<Rightarrow> (Raised e, ls2)
           | (Normal u, ls2) \<Rightarrow> (Normal (), ls2\<lparr>round_num := round_num ls2 + 1\<rparr>)))"

text \<open>
  Lines 220-236. The log message of lines 220-221 divides the elapsed time by
  \<^verbatim>\<open>round_num + 1\<close>; then come the checkpoint, the evaluation and the increment.
\<close>

definition rest_of_round ::
  "flags \<Rightarrow> ('st, 'd) env \<Rightarrow> nat \<Rightarrow> 'st loop_state \<Rightarrow> unit outcome \<times> 'st loop_state" where
  "rest_of_round cfg env n ls =
     (if round_num ls + 1 = 0 then (Raised ZeroDivisionError, ls)
      else checkpoint_and_eval cfg env n ls)"

text \<open>
  Lines 207-236, after \<^verbatim>\<open>next\<close> returned: the new state, the train metrics of the round
  (the round's own metrics stored last, over the loop's), the \<^verbatim>\<open>pop\<close> of the client
  training time, and the rest of the round.
\<close>

definition round_succeeded ::
  "flags \<Rightarrow> ('st, 'd) env \<Rightarrow> nat \<Rightarrow> 'st \<Rightarrow> string list \<Rightarrow> 'st iteration_result \<Rightarrow>
     'st loop_state \<Rightarrow> unit outcome \<times> 'st loop_state" where
  "round_succeeded cfg env n prev_model sampled_clients iteration_result ls =
     (let ls1 = ls\<lparr>state := result_state iteration_result\<rparr>;
          round_metrics = result_metrics iteration_result;
          tm1 = dict_set (train_metrics ls1) ''training_secs'' (PFloat (secs env n ''training_secs''));
          tm2 = dict_set tm1 ''model_delta_l2_norm''
                  (PFloat (model_delta_l2 env (state ls1) prev_model));
          ls2 = ls1\<lparr>unique_clients := unique_clients ls1 \<union> set sampled_clients\<rparr>;
          tm3 = dict_set tm2 ''num_unique_clients'' (PInt (int (card (unique_clients ls2))));
          tm4 = dict_update tm3 round_metrics;
          ls3 = ls2\<lparr>train_metrics := tm4\<rparr>
      in case dict_pop tm4 ''keras_training_time_client_sum_sec'' of
           None \<Rightarrow> (Raised KeyError, ls3)
         | Some tm5 \<Rightarrow> rest_of_round cfg env n (ls3\<lparr>train_metrics := tm5\<rparr>))"

text \<open>
  One iteration of the \<^verbatim>\<open>while\<close> loop (lines 186-236). A transient exception of \<^verbatim>\<open>next\<close>
  rebuilds the executor and ends the iteration normally (\<^verbatim>\<open>continue\<close>); any other
  exception leaves \<^verbatim>\<open>run\<close>.
\<close>

definition loop_body :: "flags \<Rightarrow> ('st, 'd) env \<Rightarrow> 'st loop_state \<Rightarrow> unit outcome \<times> 'st loop_state" where
  "loop_body cfg env ls =
     (let n = calls ls;
          (federated_train_data, sampled_clients) = client_datasets_fn env n (round_num ls);
          ls1 = ls\<lparr>calls := Suc n,
                   train_metrics := [(''prepare_datasets_secs'',
                                      PFloat (secs env n ''prepare_datasets_secs''))]\<rparr>;
          prev_model = state ls1
      in case process_next env n (state ls1) federated_train_data of
           Raised e \<Rightarrow>
             if transient e
             then (Normal (), ls1\<lparr>executor_rebuilds := Suc (executor_rebuilds ls1)\<rparr>)
             else (Raised e, ls1)
         | Normal iteration_result \<Rightarrow>
             round_succeeded cfg env n prev_model sampled_clients iteration_result ls1)"

text \<open>
  The \<^verbatim>\<open>while\<close> loop. It may run forever, so it takes fuel, the number of iterations it may
  begin: \<open>None\<close> is a loop still running when the fuel is spent.
\<close>

fun loop ::
  "nat \<Rightarrow> flags \<Rightarrow> ('st, 'd) env \<Rightarrow> 'st loop_state \<Rightarrow> (unit outcome \<times> 'st loop_state) option" where
  "loop 0 cfg env ls =
     (if round_num ls < total_rounds cfg then None else Some (Normal (), ls))"
| "loop (Suc fuel) cfg env ls =
     (if round_num ls < total_rounds cfg
      then (case loop_body cfg env ls of
              (Raised e, ls') \<Rightarrow> Some (Raised e, ls')
            | (Normal u, ls') \<Rightarrow> loop fuel cfg env ls')
      else Some (Normal (), ls))"

text \<open>Lines 238-245: the evaluation on the test dataset and its metrics row.\<close>

definition final_evaluation ::
  "flags \<Rightarrow> ('st, 'd) env \<Rightarrow> 'st loop_state \<Rightarrow> 'st outcome \<times> 'st loop_state" where
  "final_evaluation cfg env ls =
     (let n = calls ls;
          test_metrics = dict_set (evaluate_fn env n (state ls) True) ''evaluate_secs''
                           (PFloat (secs env n ''evaluate_secs''))
      in case write_metrics (PDict []) (PDict test_metrics) (PInt (total_rounds cfg)) ls of
           (Raised e, ls1) \<Rightarrow> (Raised e, ls1)
         | (Normal u, ls1) \<Rightarrow> (Normal (state ls1), ls1))"

text \<open>\<^verbatim>\<open>run\<close>: the returned state or the exception, and the world it leaves.\<close>

definition run ::
  "nat \<Rightarrow> flags \<Rightarrow> ('st, 'd) env \<Rightarrow> 'st world \<Rightarrow> ('st outcome \<times> 'st world) option" where
  "run fuel cfg env w =
     (case loop fuel cfg env (startup env w) of
        None \<Rightarrow> None
      | Some (Raised e, ls) \<Rightarrow> Some (Raised e, world.truncate ls)
      | Some (Normal u, ls) \<Rightarrow>
          (case final_evaluation cfg env ls of (res, ls') \<Rightarrow> Some (res, world.truncate ls')))"

section \<open>Notions used in the statements\<close>

text \<open>A row whose round number is an integer at or after \<open>r\<close>.\<close>

definition round_ge :: "int \<Rightarrow> row \<Rightarrow> bool" where
  "round_ge r rw = (case round_of rw of Some (PInt k) \<Rightarrow> r \<le> k | _ \<Rightarrow> False)"

text \<open>
  The table with every row at or after round \<open>r\<close> removed: the truncation as the
  specification words it, by round number.
\<close>

definition rows_before_round :: "int \<Rightarrow> row list \<Rightarrow> row list" where
  "rows_before_round r rows = filter (\<lambda>rw. \<not> round_ge r rw) rows"

text \<open>A table whose row at position \<open>i\<close> (from 0) holds round \<open>i\<close>.\<close>

definition dense :: "row list \<Rightarrow> bool" where
  "dense rows = (map round_of rows = map (\<lambda>i. Some (PInt (int i))) [0..<length rows])"

text \<open>
  One loop iteration, seen from the state \<open>ls\<close> it starts in: the data and the client ids
  that \<^verbatim>\<open>client_datasets_fn\<close> returns, the result of the call of \<^verbatim>\<open>next\<close>, and the state
  after line 190 (the iteration counted, the train metrics begun).
\<close>

definition attempt_data :: "('st, 'd) env \<Rightarrow> 'st loop_state \<Rightarrow> 'd" where
  "attempt_data env ls = fst (client_datasets_fn env (calls ls) (round_num ls))"

definition sampled_clients_at :: "('st, 'd) env \<Rightarrow> 'st loop_state \<Rightarrow> string list" where
  "sampled_clients_at env ls = snd (client_datasets_fn env (calls ls) (round_num ls))"

definition attempt_result ::
  "('st, 'd) env \<Rightarrow> 'st loop_state \<Rightarrow> 'st iteration_result outcome" where
  "attempt_result env ls = process_next env (calls ls) (state ls) (attempt_data env ls)"

definition attempt_succeeds :: "('st, 'd) env \<Rightarrow> 'st loop_state \<Rightarrow> bool" where
  "attempt_succeeds env ls = (case attempt_result env ls of Normal ir \<Rightarrow> True | Raised e \<Rightarrow> False)"

definition begun :: "('st, 'd) env \<Rightarrow> 'st loop_state \<Rightarrow> 'st loop_state" where
  "begun env ls =
     ls\<lparr>calls := Suc (calls ls),
        train_metrics := [(''prepare_datasets_secs'',
                           PFloat (secs env (calls ls) ''prepare_datasets_secs''))]\<rparr>"

text \<open>
  The rounds after which a checkpoint is due, as the specification words it: the round
  number is divisible by the checkpoint interval, or the round is the last one.
\<close>

definition checkpoint_due :: "flags \<Rightarrow> int \<Rightarrow> bool" where
  "checkpoint_due cfg r = (rounds_per_checkpoint cfg dvd r \<or> r = total_rounds cfg - 1)"

text \<open>
  The states in which the iterations of the loop start, in order, for at most \<open>fuel\<close>
  iterations: the attempts of a run.
\<close>

fun loop_trace ::
  "nat \<Rightarrow> flags \<Rightarrow> ('st, 'd) env \<Rightarrow> 'st loop_state \<Rightarrow> 'st loop_state list" where
  "loop_trace 0 cfg env ls = []"
| "loop_trace (Suc fuel) cfg env ls =
     (if round_num ls < total_rounds cfg
      then ls # (case loop_body cfg env ls of
                   (Raised e, ls') \<Rightarrow> []
                 | (Normal u, ls') \<Rightarrow> loop_trace fuel cfg env ls')
      else [])"

text \<open>The client ids of the successful attempts among the given ones.\<close>

definition clients_of_successes :: "('st, 'd) env \<Rightarrow> 'st loop_state list \<Rightarrow> string set" where
  "clients_of_successes env tr =
     set (concat (map (sampled_clients_at env) (filter (attempt_succeeds env) tr)))"

text \<open>
  The flattened metrics that the sink takes at the step \<open>r\<close>: every value a number, and
  the step an integer of 64 bits.
\<close>

definition summary_accepts :: "int \<Rightarrow> (string \<times> pyval) list \<Rightarrow> bool" where
  "summary_accepts r flat = list_all (\<lambda>(name, val). is_scalar val \<and> int64 r) flat"

text \<open>
  A value all of whose leaves are numbers that the sink takes: a number, or a dictionary,
  nested to any depth, of such values.
\<close>

definition scalars_only :: "pyval \<Rightarrow> bool" where
  "scalars_only v = list_all (\<lambda>(path, item). is_scalar item) (flatten_with_path v)"

text \<open>The table that a write of \<open>rw\<close> for round \<open>r\<close> leaves (lines 108-116).\<close>

definition table_after_write :: "row list option \<Rightarrow> int \<Rightarrow> row \<Rightarrow> row list option" where
  "table_after_write tbl r rw =
     Some (case tbl of Some rows \<Rightarrow> slice_to r rows @ [rw] | None \<Rightarrow> [rw])"

text \<open>
  The metrics row of round \<open>r\<close>, from the state \<open>ls'\<close> in which the iteration \<open>n\<close> that
  completed the round ends: the train metrics of the round and the validation metrics.
\<close>

definition round_row :: "('st, 'd) env \<Rightarrow> nat \<Rightarrow> int \<Rightarrow> 'st loop_state \<Rightarrow> row" where
  "round_row env n r ls' =
     flat_metrics (PDict (train_metrics ls'))
       (PDict (dict_set (evaluate_fn env n (state ls') False) ''evaluate_secs''
                 (PFloat (secs env n ''evaluate_secs''))))
       (PInt r)"

text \<open>The metrics row of the final evaluation, from the state in which the loop ended.\<close>

definition final_row :: "flags \<Rightarrow> ('st, 'd) env \<Rightarrow> 'st loop_state \<Rightarrow> row" where
  "final_row cfg env ls =
     flat_metrics (PDict [])
       (PDict (dict_set (evaluate_fn env (calls ls) (state ls) True) ''evaluate_secs''
                 (PFloat (secs env (calls ls) ''evaluate_secs''))))
       (PInt (total_rounds cfg))"

text \<open>The value of a row in the column \<open>k\<close>, and the values of a column of the table.\<close>

definition cell :: "string \<Rightarrow> row \<Rightarrow> pyval option" where
  "cell k rw = map_of rw k"

definition column :: "string \<Rightarrow> 'a metrics_store_scheme \<Rightarrow> pyval option list" where
  "column k w = (case metrics_csv w of None \<Rightarrow> [] | Some rows \<Rightarrow> map (cell k) rows)"

text \<open>A dictionary of scalars: distinct keys, no nested dictionary.\<close>

definition flat_dict :: "pydict \<Rightarrow> bool" where
  "flat_dict d = (distinct (map fst d) \<and> list_all (\<lambda>(k, v). \<not> is_dict v) d)"

text \<open>
  A loop state from which a new start would resume exactly here: loading the latest
  checkpoint gives this state and the round before this one, or there is no checkpoint
  and this is the initial state at round 0.
\<close>

definition resumable :: "('st, 'd) env \<Rightarrow> 'st loop_state \<Rightarrow> bool" where
  "resumable env ls =
     (case load_latest_checkpoint (checkpoints ls) of
        None \<Rightarrow> state ls = initialize env \<and> round_num ls = 0
      | Some (s, r) \<Rightarrow> s = state ls \<and> r + 1 = round_num ls)"

text \<open>
  A call of \<^verbatim>\<open>run\<close> and, when it has ended (with a state or with an exception), a second
  call on the world the first one left: a restart of the process with the same flags. And
  a third call after the second.
\<close>

definition run_twice ::
  "nat \<Rightarrow> flags \<Rightarrow> ('st, 'd) env \<Rightarrow> 'st world \<Rightarrow> ('st outcome \<times> 'st world) option" where
  "run_twice fuel cfg env w =
     (case run fuel cfg env w of
        Some (out, w') \<Rightarrow> run fuel cfg env w'
      | None \<Rightarrow> None)"

definition run_thrice ::
  "nat \<Rightarrow> flags \<Rightarrow> ('st, 'd) env \<Rightarrow> 'st world \<Rightarrow> ('st outcome \<times> 'st world) option" where
  "run_thrice fuel cfg env w =
     (case run_twice fuel cfg env w of
        Some (out, w') \<Rightarrow> run fuel cfg env w'
      | None \<Rightarrow> None)"

section \<open>Examples\<close>

text \<open>
  Example collaborators. The state counts the rounds applied to it; \<open>fault n\<close> is the
  exception that \<^verbatim>\<open>next\<close> raises in iteration \<open>n\<close>, if any; \<open>clients n\<close> are the client ids
  sampled in iteration \<open>n\<close>; every successful round returns \<open>round_metrics\<close>.
\<close>

definition demo_env ::
  "(nat \<Rightarrow> exn option) \<Rightarrow> (nat \<Rightarrow> string list) \<Rightarrow> pydict \<Rightarrow> (nat, unit) env" where
  "demo_env fault clients round_metrics =
     \<lparr>initialize = 0,
      process_next = (\<lambda>n s d. case fault n of
                        Some e \<Rightarrow> Raised e
                      | None \<Rightarrow> Normal \<lparr>result_state = Suc s, result_metrics = round_metrics\<rparr>),
      client_datasets_fn = (\<lambda>n r. ((), clients n)),
      evaluate_fn = (\<lambda>n s test. [(''accuracy'', PFloat (if test then 1 else 0))]),
      model_delta_l2 = (\<lambda>s s'. 1),
      secs = (\<lambda>n k. 0)\<rparr>"

definition demo_metrics :: pydict where
  "demo_metrics = [(''loss'', PFloat 1), (''keras_training_time_client_sum_sec'', PFloat 2)]"

text \<open>The client ids of the specification's example: a and b, then b and c, then a and d.\<close>

definition demo_clients :: "nat \<Rightarrow> string list" where
  "demo_clients n =
     (if n = 0 then [''a'', ''b''] else if n = 1 then [''b'', ''c''] else [''a'', ''d''])"

text \<open>A world with no checkpoint and no metrics file.\<close>

definition fresh_world :: "nat world" where
  "fresh_world =
     \<lparr>summary = [], metrics_csv = None, checkpoints = [], executor_rebuilds = 0, calls = 0\<rparr>"

text \<open>
  Flags: three rounds; the cadence example of the specification; two rounds of which
  every second one is evaluated and written; two rounds with a checkpoint after each.
\<close>

definition demo_flags :: flags where
  "demo_flags = \<lparr>total_rounds = 3, rounds_per_eval = 1, rounds_per_checkpoint = 50\<rparr>"


definition sparse_flags :: flags where
  "sparse_flags = \<lparr>total_rounds = 2, rounds_per_eval = 2, rounds_per_checkpoint = 50\<rparr>"

definition every_round_flags :: flags where
  "every_round_flags = \<lparr>total_rounds = 2, rounds_per_eval = 1, rounds_per_checkpoint = 1\<rparr>"

text \<open>
  Processes: one in which every round succeeds; one whose round metrics have an entry
  named \<^verbatim>\<open>num_unique_clients\<close> of their own; one whose second call of \<^verbatim>\<open>next\<close> raises an
  exception that the loop does not catch.
\<close>

definition steady_env :: "(nat, unit) env" where
  "steady_env = demo_env (\<lambda>n. None) demo_clients demo_metrics"

definition clashing_env :: "(nat, unit) env" where
  "clashing_env =
     demo_env (\<lambda>n. None) demo_clients
       [(''num_unique_clients'', PInt 99), (''keras_training_time_client_sum_sec'', PFloat 2)]"

definition crashing_env :: "(nat, unit) env" where
  "crashing_env =
     demo_env (\<lambda>n. if n = 1 then Some (OtherError ''crash'') else None)
       demo_clients demo_metrics"

text \<open>
  A process whose calls 0, 1 and 3 of \<^verbatim>\<open>next\<close> raise the three exceptions that the loop
  catches, one each, and whose other calls return; and one whose every call raises the
  first of them.
\<close>

definition flaky_env :: "(nat, unit) env" where
  "flaky_env =
     demo_env (\<lambda>n. if n = 0 then Some FailedPreconditionError
                    else if n = 1 then Some NotFoundError
                    else if n = 3 then Some InternalError else None)
       demo_clients demo_metrics"

definition failing_env :: "(nat, unit) env" where
  "failing_env = demo_env (\<lambda>n. Some FailedPreconditionError) demo_clients demo_metrics"

text \<open>
  A process whose second call of \<^verbatim>\<open>next\<close> raises an exception that the loop catches, with
  flags for two rounds. And a process whose first call of \<^verbatim>\<open>next\<close> raises such an exception
  and whose round metrics have an entry named \<^verbatim>\<open>num_unique_clients\<close> of their own, with
  flags for a single round.
\<close>

definition retry_env :: "(nat, unit) env" where
  "retry_env =
     demo_env (\<lambda>n. if n = 1 then Some InternalError else None) demo_clients demo_metrics"

definition two_round_flags :: flags where
  "two_round_flags = \<lparr>total_rounds = 2, rounds_per_eval = 1, rounds_per_checkpoint = 50\<rparr>"

definition clash_after_fault_env :: "(nat, unit) env" where
  "clash_after_fault_env =
     demo_env (\<lambda>n. if n = 0 then Some InternalError else None) demo_clients
       [(''num_unique_clients'', PInt 99), (''keras_training_time_client_sum_sec'', PFloat 2)]"

definition one_round_flags :: flags where
  "one_round_flags = \<lparr>total_rounds = 1, rounds_per_eval = 1, rounds_per_checkpoint = 50\<rparr>"

text \<open>
  A run that ends between the checkpoint of round 1 and the metrics row of that round:
  three rounds with a checkpoint and an evaluation after each, and an evaluation
  function whose result in iteration 1 holds \<^verbatim>\<open>None\<close>, which the sink refuses.
\<close>

definition checkpoint_each_flags :: flags where
  "checkpoint_each_flags = \<lparr>total_rounds = 3, rounds_per_eval = 1, rounds_per_checkpoint = 1\<rparr>"

definition dying_env :: "(nat, unit) env" where
  "dying_env =
     (demo_env (\<lambda>n. None) demo_clients demo_metrics)
       \<lparr>evaluate_fn := (\<lambda>n s test. [(''accuracy'', if n = 1 then PNone else PFloat 1)])\<rparr>"

section \<open>Dictionaries and flattened metrics\<close>

lemma map_of_dict_update:
  "map_of (dict_update d e) k =
     (case map_of (rev e) k of Some v \<Rightarrow> Some v | None \<Rightarrow> map_of d k)"
proof (induction e arbitrary: d)
  case Nil
  show ?case by (simp add: dict_update_def)
next
  case (Cons p e)
  obtain k' v' where p: "p = (k', v')" by (cases p)
  have step: "dict_update d (p # e) = dict_update (dict_set d k' v') e"
    by (simp add: dict_update_def p)
  show ?case
    unfolding step Cons.IH
    by (simp add: p dict_set_def update_conv' map_add_def split: option.splits)
qed

lemma join_Cons: "\<exists>s. join sep (x # p) = x @ s"
  by (cases p) auto

lemma flatten_top:
  "flatten_with_path (PDict [(''train'', t), (''eval'', e), (''round'', r)]) =
     map (\<lambda>(path, item). (''eval'' # path, item)) (flatten_with_path e) @
     map (\<lambda>(path, item). (''round'' # path, item)) (flatten_with_path r) @
     map (\<lambda>(path, item). (''train'' # path, item)) (flatten_with_path t)"
  by simp

lemma prefixed_names:
  "(nm, v) \<in> set (map (\<lambda>(path, item). (join sep path, item))
                    (map (\<lambda>(path, item). (k # path, item)) xs))
   \<Longrightarrow> \<exists>s. nm = k @ s"
  using join_Cons by (auto simp: image_iff)

lemma round_of_flat_metrics: "round_of (flat_metrics t e (PInt r)) = Some (PInt r)"
proof -
  let ?E = "map (\<lambda>(path, item). (join ''/'' path, item))
              (map (\<lambda>(path, item). (''eval'' # path, item)) (flatten_with_path e))"
  let ?T = "map (\<lambda>(path, item). (join ''/'' path, item))
              (map (\<lambda>(path, item). (''train'' # path, item)) (flatten_with_path t))"
  have fm: "flat_metrics t e (PInt r) = ordered_dict (?E @ [(''round'', PInt r)] @ ?T)"
    unfolding flat_metrics_def flatten_top by simp
  have nE: "map_of (rev ?E) ''round'' = None"
  proof (rule ccontr)
    assume "map_of (rev ?E) ''round'' \<noteq> None"
    then obtain v where "map_of (rev ?E) ''round'' = Some v" by auto
    then have "(''round'', v) \<in> set ?E" using map_of_SomeD by fastforce
    from prefixed_names[OF this] show False by auto
  qed
  have nT: "map_of (rev ?T) ''round'' = None"
  proof (rule ccontr)
    assume "map_of (rev ?T) ''round'' \<noteq> None"
    then obtain v where "map_of (rev ?T) ''round'' = Some v" by auto
    then have "(''round'', v) \<in> set ?T" using map_of_SomeD by fastforce
    from prefixed_names[OF this] show False by auto
  qed
  show ?thesis
    unfolding round_of_def fm ordered_dict_def map_of_dict_update
    using nE nT by (simp add: map_add_def split: option.splits)
qed

section \<open>The metrics writer: truncation and rejection\<close>

lemma filter_eq_take:
  "(\<And>i. i < length xs \<Longrightarrow> P (xs ! i) = (i < k)) \<Longrightarrow> filter P xs = take k xs"
proof (induction xs arbitrary: k)
  case Nil
  show ?case by simp
next
  case (Cons x xs)
  show ?case
  proof (cases k)
    case 0
    have "\<And>y. y \<in> set (x # xs) \<Longrightarrow> \<not> P y"
    proof -
      fix y assume "y \<in> set (x # xs)"
      then obtain i where "i < length (x # xs)" "(x # xs) ! i = y" by (meson in_set_conv_nth)
      with Cons.prems[of i] 0 show "\<not> P y" by simp
    qed
    then have "filter P (x # xs) = []" by (simp add: filter_empty_conv)
    with 0 show ?thesis by simp
  next
    case (Suc k')
    have px: "P x" using Cons.prems[of 0] Suc by simp
    have "filter P xs = take k' xs"
    proof (rule Cons.IH)
      fix i assume "i < length xs"
      with Cons.prems[of "Suc i"] Suc show "P (xs ! i) = (i < k')" by simp
    qed
    with px Suc show ?thesis by simp
  qed
qed

lemma summary_scalars_cases:
  "summary_scalars r flat st =
     (if summary_accepts r flat
      then (Normal (), st\<lparr>summary := summary st @ map (\<lambda>(name, val). (name, val, r)) flat\<rparr>)
      else (Raised SummaryError,
            st\<lparr>summary := summary st @ map (\<lambda>(name, val). (name, val, r))
                 (takeWhile (\<lambda>(name, val). is_scalar val \<and> int64 r) flat)\<rparr>))"
proof (induction flat arbitrary: st)
  case Nil
  show ?case by (simp add: summary_accepts_def)
next
  case (Cons p flat)
  obtain name val where p: "p = (name, val)" by (cases p)
  show ?case unfolding p using Cons.IH by (simp add: summary_accepts_def)
qed

lemma write_metrics_cases:
  "is_dict t \<Longrightarrow> is_dict e \<Longrightarrow>
   write_metrics t e (PInt r) st =
     (if summary_accepts r (flat_metrics t e (PInt r))
      then (Normal (),
            st\<lparr>summary := summary st @
                 map (\<lambda>(name, val). (name, val, r)) (flat_metrics t e (PInt r)),
               metrics_csv := Some (case metrics_csv st of
                   Some rows \<Rightarrow> slice_to r rows @ [flat_metrics t e (PInt r)]
                 | None \<Rightarrow> [flat_metrics t e (PInt r)])\<rparr>)
      else (Raised SummaryError,
            st\<lparr>summary := summary st @ map (\<lambda>(name, val). (name, val, r))
                 (takeWhile (\<lambda>(name, val). is_scalar val \<and> int64 r)
                    (flat_metrics t e (PInt r)))\<rparr>))"
  by (simp add: write_metrics_def summary_scalars_cases Let_def)

lemma write_metrics_table:
  "is_dict t \<Longrightarrow> is_dict e \<Longrightarrow> summary_accepts r (flat_metrics t e (PInt r)) \<Longrightarrow>
   metrics_csv (snd (write_metrics t e (PInt r) st)) =
     Some (case metrics_csv st of
             Some rows \<Rightarrow> slice_to r rows @ [flat_metrics t e (PInt r)]
           | None \<Rightarrow> [flat_metrics t e (PInt r)])"
  by (simp add: write_metrics_cases)

lemma dense_nth:
  assumes "dense rows" and "i < length rows"
  shows "round_of (rows ! i) = Some (PInt (int i))"
proof -
  have "map round_of rows ! i = map (\<lambda>i. Some (PInt (int i))) [0..<length rows] ! i"
    using assms(1) by (simp add: dense_def)
  with assms(2) show ?thesis by simp
qed

text \<open>
  Where the slice by position and the truncation by round number agree: on a table whose
  row at position \<open>i\<close> holds round \<open>i\<close>, and for a round number \<open>r \<ge> 0\<close>, a write that the
  sink takes removes exactly the rows whose round number is at or after \<open>r\<close>; the new row
  carries round \<open>r\<close>, and no round number occurs twice in the result.
\<close>

lemma write_metrics_on_dense_table:
  assumes "is_dict t" and "is_dict e" and "metrics_csv st = Some rows"
    and "dense rows" and "0 \<le> r" and "summary_accepts r (flat_metrics t e (PInt r))"
  shows "metrics_csv (snd (write_metrics t e (PInt r) st)) =
           Some (rows_before_round r rows @ [flat_metrics t e (PInt r)])
         \<and> round_of (flat_metrics t e (PInt r)) = Some (PInt r)
         \<and> distinct (map round_of (rows_before_round r rows @ [flat_metrics t e (PInt r)]))"
proof -
  have f: "rows_before_round r rows = take (nat r) rows"
    unfolding rows_before_round_def
  proof (rule filter_eq_take)
    fix i assume "i < length rows"
    from dense_nth[OF assms(4) this] assms(5)
    show "(\<not> round_ge r (rows ! i)) = (i < nat r)" by (auto simp: round_ge_def)
  qed
  have tbl: "metrics_csv (snd (write_metrics t e (PInt r) st)) =
               Some (take (nat r) rows @ [flat_metrics t e (PInt r)])"
    using assms(5)
    by (simp add: write_metrics_table[OF assms(1,2,6)] assms(3) slice_to_def)
  have m: "map round_of (take (nat r) rows) =
             map (\<lambda>i. Some (PInt (int i))) [0..<min (nat r) (length rows)]"
  proof -
    have "take (nat r) [0..<length rows] = [0..<min (nat r) (length rows)]"
      by (cases "nat r \<le> length rows") (simp_all add: min_def)
    then have "take (nat r) (map (\<lambda>i. Some (PInt (int i))) [0..<length rows]) =
               map (\<lambda>i. Some (PInt (int i))) [0..<min (nat r) (length rows)]"
      by (simp add: take_map)
    with assms(4) show ?thesis by (simp add: dense_def take_map[symmetric])
  qed
  have inj: "inj_on (\<lambda>i. Some (PInt (int i))) {0..<min (nat r) (length rows)}"
    by (auto simp: inj_on_def)
  have d: "distinct (map round_of (take (nat r) rows @ [flat_metrics t e (PInt r)]))"
    using assms(5) inj by (auto simp: m round_of_flat_metrics distinct_map)
  show ?thesis using tbl d by (simp add: f round_of_flat_metrics)
qed

text \<open>
  Claim C1 does not hold of the code: the writer cuts the table by position
  (\<^verbatim>\<open>metrics[:round_num]\<close>), not by round number, so a row of a round at or after the one
  written stays whenever it stands at a position below that number. On the table with
  the rows of rounds 0 and 2, a write for round 2 keeps both rows and appends a second
  row for round 2, where removing the rows at or after round 2 would keep only the row
  of round 0. With \<^verbatim>\<open>rounds_per_eval = 2\<close> and \<^verbatim>\<open>total_rounds = 2\<close> a run leaves that table, and
  a second call of \<^verbatim>\<open>run\<close> writes round 2 again. The same happens on a table with the one
  row of round 0 when round 2 is written twice. And with an evaluation after every round:
  a run that ends between the checkpoint of round 1 and its metrics row leaves the row of
  round 0; the run that resumes writes the rounds 2 and 3, and a run after that writes
  round 3 again.
\<close>

theorem write_metrics_keeps_later_round:
  "metrics_csv (snd (write_metrics (PDict []) (PDict [(''loss'', PFloat 1)]) (PInt 2)
      \<lparr>summary = [],
       metrics_csv = Some [[(''eval/loss'', PFloat 3), (''round'', PInt 0)],
                           [(''eval/loss'', PFloat 1), (''round'', PInt 2)]]\<rparr>)) =
     Some [[(''eval/loss'', PFloat 3), (''round'', PInt 0)],
           [(''eval/loss'', PFloat 1), (''round'', PInt 2)],
           [(''eval/loss'', PFloat 1), (''round'', PInt 2)]]
   \<and> rows_before_round 2 [[(''eval/loss'', PFloat 3), (''round'', PInt 0)],
                           [(''eval/loss'', PFloat 1), (''round'', PInt 2)]] =
       [[(''eval/loss'', PFloat 3), (''round'', PInt 0)]]
   \<and> map_option (column ''round'' \<circ> snd) (run 2 sparse_flags steady_env fresh_world) =
       Some [Some (PInt 0), Some (PInt 2)]
   \<and> map_option (column ''round'' \<circ> snd) (run_twice 2 sparse_flags steady_env fresh_world) =
       Some [Some (PInt 0), Some (PInt 2), Some (PInt 2)]
   \<and> column ''round''
        (snd (write_metrics (PDict []) (PDict []) (PInt 2)
           (snd (write_metrics (PDict []) (PDict []) (PInt 2)
              \<lparr>summary = [], metrics_csv = Some [[(''round'', PInt 0)]]\<rparr>)))) =
       [Some (PInt 0), Some (PInt 2), Some (PInt 2)]
   \<and> map_option (\<lambda>r. (fst r, column ''round'' (snd r)))
        (run 3 checkpoint_each_flags dying_env fresh_world) =
       Some (Raised SummaryError, [Some (PInt 0)])
   \<and> map_option (column ''round'' \<circ> snd)
        (run_twice 3 checkpoint_each_flags dying_env fresh_world) =
       Some [Some (PInt 0), Some (PInt 2), Some (PInt 3)]
   \<and> map_option (column ''round'' \<circ> snd)
        (run_thrice 3 checkpoint_each_flags dying_env fresh_world) =
       Some [Some (PInt 0), Some (PInt 2), Some (PInt 3), Some (PInt 3)]"
proof -
  have a: "metrics_csv (snd (write_metrics (PDict []) (PDict [(''loss'', PFloat 1)]) (PInt 2)
      \<lparr>summary = [],
       metrics_csv = Some [[(''eval/loss'', PFloat 3), (''round'', PInt 0)],
                           [(''eval/loss'', PFloat 1), (''round'', PInt 2)]]\<rparr>)) =
     Some [[(''eval/loss'', PFloat 3), (''round'', PInt 0)],
           [(''eval/loss'', PFloat 1), (''round'', PInt 2)],
           [(''eval/loss'', PFloat 1), (''round'', PInt 2)]]"
    by (simp add: write_metrics_def flat_metrics_def ordered_dict_def dict_update_def
        dict_set_def slice_to_def int64_def Let_def)
  have b: "rows_before_round 2 [[(''eval/loss'', PFloat 3), (''round'', PInt 0)],
                           [(''eval/loss'', PFloat 1), (''round'', PInt 2)]] =
       [[(''eval/loss'', PFloat 3), (''round'', PInt 0)]]"
    by (simp add: rows_before_round_def round_ge_def round_of_def)
  have c: "map_option (column ''round'' \<circ> snd) (run 2 sparse_flags steady_env fresh_world) =
       Some [Some (PInt 0), Some (PInt 2)]"
    by code_simp
  have d: "map_option (column ''round'' \<circ> snd)
             (run_twice 2 sparse_flags steady_env fresh_world) =
       Some [Some (PInt 0), Some (PInt 2), Some (PInt 2)]"
    by code_simp
  have e: "column ''round''
        (snd (write_metrics (PDict []) (PDict []) (PInt 2)
           (snd (write_metrics (PDict []) (PDict []) (PInt 2)
              \<lparr>summary = [], metrics_csv = Some [[(''round'', PInt 0)]]\<rparr>)))) =
       [Some (PInt 0), Some (PInt 2), Some (PInt 2)]"
    by code_simp
  have f: "map_option (\<lambda>r. (fst r, column ''round'' (snd r)))
        (run 3 checkpoint_each_flags dying_env fresh_world) =
       Some (Raised SummaryError, [Some (PInt 0)])"
    by code_simp
  have g: "map_option (column ''round'' \<circ> snd)
        (run_twice 3 checkpoint_each_flags dying_env fresh_world) =
       Some [Some (PInt 0), Some (PInt 2), Some (PInt 3)]"
    by code_simp
  have h: "map_option (column ''round'' \<circ> snd)
        (run_thrice 3 checkpoint_each_flags dying_env fresh_world) =
       Some [Some (PInt 0), Some (PInt 2), Some (PInt 3), Some (PInt 3)]"
    by code_simp
  from a b c d e f g h show ?thesis by (simp only: simp_thms)
qed

text \<open>
  Claim C5. A train metrics argument that is not a dictionary, an eval metrics argument
  that is not a dictionary, or a round number that is not an integer makes the writer
  raise TypeError with the sink and the table as they were.
\<close>

theorem write_metrics_rejects_malformed:
  "\<not> is_dict t \<or> \<not> is_dict e \<or> \<not> is_int r \<Longrightarrow> write_metrics t e r st = (Raised TypeError, st)"
  by (cases r) (auto simp: write_metrics_def)

theorem write_metrics_rejects_malformed_witness:
  "write_metrics (PStr ''acc'') (PDict []) (PInt 3)
      \<lparr>summary = [(''round'', PInt 0, 0)], metrics_csv = Some [[(''round'', PInt 0)]]\<rparr> =
     (Raised TypeError,
      \<lparr>summary = [(''round'', PInt 0, 0)], metrics_csv = Some [[(''round'', PInt 0)]]\<rparr>)
   \<and> write_metrics (PDict []) PNone (PInt 3) \<lparr>summary = [], metrics_csv = None\<rparr> =
     (Raised TypeError, \<lparr>summary = [], metrics_csv = None\<rparr>)
   \<and> write_metrics (PDict []) (PDict []) (PFloat 3) \<lparr>summary = [], metrics_csv = None\<rparr> =
     (Raised TypeError, \<lparr>summary = [], metrics_csv = None\<rparr>)"
  using write_metrics_rejects_malformed
          [of "PStr ''acc''" "PDict []" "PInt 3"
              "\<lparr>summary = [(''round'', PInt 0, 0)], metrics_csv = Some [[(''round'', PInt 0)]]\<rparr>"]
        write_metrics_rejects_malformed
          [of "PDict []" PNone "PInt 3" "\<lparr>summary = [], metrics_csv = None\<rparr>"]
        write_metrics_rejects_malformed
          [of "PDict []" "PDict []" "PFloat 3" "\<lparr>summary = [], metrics_csv = None\<rparr>"]
  by simp

section \<open>One iteration of the loop\<close>

lemma write_metrics_ok:
  "write_metrics (PDict t) (PDict e) (PInt r) st =
     (if summary_accepts r (flat_metrics (PDict t) (PDict e) (PInt r))
      then (Normal (),
            st\<lparr>summary := summary st @
                 map (\<lambda>(name, val). (name, val, r)) (flat_metrics (PDict t) (PDict e) (PInt r)),
               metrics_csv := Some (case metrics_csv st of
                   Some rows \<Rightarrow> slice_to r rows @ [flat_metrics (PDict t) (PDict e) (PInt r)]
                 | None \<Rightarrow> [flat_metrics (PDict t) (PDict e) (PInt r)])\<rparr>)
      else (Raised SummaryError,
            st\<lparr>summary := summary st @ map (\<lambda>(name, val). (name, val, r))
                 (takeWhile (\<lambda>(name, val). is_scalar val \<and> int64 r)
                    (flat_metrics (PDict t) (PDict e) (PInt r)))\<rparr>))"
  by (rule write_metrics_cases) simp_all

lemma write_metrics_fields:
  assumes "write_metrics (PDict t) (PDict e) (PInt r) st = (out, st')"
  shows "(\<exists>sm. st' = st\<lparr>summary := sm\<rparr> \<and> out = Raised SummaryError
            \<and> \<not> summary_accepts r (flat_metrics (PDict t) (PDict e) (PInt r)))
       \<or> (\<exists>sm tb. st' = st\<lparr>summary := sm, metrics_csv := tb\<rparr> \<and> out = Normal ()
            \<and> summary_accepts r (flat_metrics (PDict t) (PDict e) (PInt r)))"
  using assms unfolding write_metrics_ok
  by (cases "summary_accepts r (flat_metrics (PDict t) (PDict e) (PInt r))") auto

lemma checkpoint_due_code:
  "checkpoint_due cfg r =
     (r mod rounds_per_checkpoint cfg = 0 \<or> r = total_rounds cfg - 1)"
  by (simp add: checkpoint_due_def dvd_eq_mod_eq_0)

lemma maybe_checkpoint_cases:
  "maybe_checkpoint cfg env n ls =
     (if rounds_per_checkpoint cfg = 0 then (Raised ZeroDivisionError, ls)
      else if checkpoint_due cfg (round_num ls)
      then (Normal (),
            ls\<lparr>checkpoints := save_checkpoint (state ls) (round_num ls) (checkpoints ls),
               train_metrics := dict_set (train_metrics ls) ''save_checkpoint_secs''
                                  (PFloat (secs env n ''save_checkpoint_secs''))\<rparr>)
      else (Normal (), ls))"
  unfolding maybe_checkpoint_def checkpoint_due_code by (rule refl)

lemma maybe_checkpoint_fields:
  assumes "maybe_checkpoint cfg env n ls = (out, ls')"
  shows "state ls' = state ls \<and> unique_clients ls' = unique_clients ls
    \<and> round_num ls' = round_num ls \<and> metrics_csv ls' = metrics_csv ls
    \<and> summary ls' = summary ls
    \<and> calls ls' = calls ls \<and> executor_rebuilds ls' = executor_rebuilds ls
    \<and> (out = Normal () \<or> out = Raised ZeroDivisionError)
    \<and> (out = Normal ()) = (rounds_per_checkpoint cfg \<noteq> 0)
    \<and> checkpoints ls' =
           (if rounds_per_checkpoint cfg \<noteq> 0 \<and> checkpoint_due cfg (round_num ls)
            then save_checkpoint (state ls) (round_num ls) (checkpoints ls)
            else checkpoints ls)"
proof (cases "rounds_per_checkpoint cfg = 0")
  case True
  with assms have "out = Raised ZeroDivisionError" "ls' = ls"
    by (simp_all add: maybe_checkpoint_cases)
  with True show ?thesis by simp
next
  case nz: False
  show ?thesis
  proof (cases "checkpoint_due cfg (round_num ls)")
    case True
    with nz assms have "out = Normal ()"
      "ls' = ls\<lparr>checkpoints := save_checkpoint (state ls) (round_num ls) (checkpoints ls),
               train_metrics := dict_set (train_metrics ls) ''save_checkpoint_secs''
                                  (PFloat (secs env n ''save_checkpoint_secs''))\<rparr>"
      by (simp_all add: maybe_checkpoint_cases)
    with nz True show ?thesis by simp
  next
    case False
    with nz assms have "out = Normal ()" "ls' = ls"
      by (simp_all add: maybe_checkpoint_cases)
    with nz False show ?thesis by simp
  qed
qed

lemma maybe_evaluate_fields:
  assumes "maybe_evaluate cfg env n ls = (out, ls')"
  shows "state ls' = state ls \<and> unique_clients ls' = unique_clients ls
    \<and> round_num ls' = round_num ls \<and> checkpoints ls' = checkpoints ls
    \<and> train_metrics ls' = train_metrics ls
    \<and> calls ls' = calls ls \<and> executor_rebuilds ls' = executor_rebuilds ls
    \<and> (out = Normal () \<or> out = Raised ZeroDivisionError \<or> out = Raised SummaryError)
    \<and> (out = Normal () \<longrightarrow> rounds_per_eval cfg \<noteq> 0)
    \<and> (out \<noteq> Normal () \<longrightarrow> metrics_csv ls' = metrics_csv ls)"
proof (cases "rounds_per_eval cfg = 0")
  case True
  with assms have "out = Raised ZeroDivisionError" "ls' = ls"
    by (simp_all add: maybe_evaluate_def)
  with True show ?thesis by simp
next
  case nz: False
  show ?thesis
  proof (cases "round_num ls mod rounds_per_eval cfg = 0")
    case True
    with nz assms obtain t e where
      "write_metrics (PDict t) (PDict e) (PInt (round_num ls)) ls = (out, ls')"
      by (auto simp: maybe_evaluate_def Let_def)
    from write_metrics_fields[OF this] nz show ?thesis by auto
  next
    case False
    with nz assms have "out = Normal ()" "ls' = ls"
      by (simp_all add: maybe_evaluate_def)
    with nz show ?thesis by simp
  qed
qed

lemma checkpoint_and_eval_fields:
  assumes "checkpoint_and_eval cfg env n ls = (out, ls')"
  shows "state ls' = state ls \<and> unique_clients ls' = unique_clients ls
    \<and> calls ls' = calls ls \<and> executor_rebuilds ls' = executor_rebuilds ls
    \<and> checkpoints ls' =
           (if rounds_per_checkpoint cfg \<noteq> 0 \<and> checkpoint_due cfg (round_num ls)
            then save_checkpoint (state ls) (round_num ls) (checkpoints ls)
            else checkpoints ls)
    \<and> (out = Normal () \<or> out = Raised ZeroDivisionError \<or> out = Raised SummaryError)
    \<and> (out = Normal () \<longrightarrow>
           round_num ls' = round_num ls + 1 \<and> rounds_per_checkpoint cfg \<noteq> 0 \<and>
           rounds_per_eval cfg \<noteq> 0)
    \<and> (out \<noteq> Normal () \<longrightarrow> round_num ls' = round_num ls)"
proof -
  obtain o1 ls1 where c: "maybe_checkpoint cfg env n ls = (o1, ls1)"
    by (cases "maybe_checkpoint cfg env n ls")
  note f1 = maybe_checkpoint_fields[OF c]
  show ?thesis
  proof (cases "o1 = Normal ()")
    case False
    with f1 have o1: "o1 = Raised ZeroDivisionError" by simp
    with assms c have "out = Raised ZeroDivisionError" "ls' = ls1"
      by (simp_all add: checkpoint_and_eval_def)
    with f1 o1 show ?thesis by simp
  next
    case True
    obtain o2 ls2 where e: "maybe_evaluate cfg env n ls1 = (o2, ls2)"
      by (cases "maybe_evaluate cfg env n ls1")
    note f2 = maybe_evaluate_fields[OF e]
    show ?thesis
    proof (cases "o2 = Normal ()")
      case False
      with f2 obtain x where o2: "o2 = Raised x" "x = ZeroDivisionError \<or> x = SummaryError"
        by auto
      with assms c e True have "out = Raised x" "ls' = ls2"
        by (simp_all add: checkpoint_and_eval_def)
      with f1 f2 o2 True show ?thesis by auto
    next
      case o2: True
      with assms c e True
      have "out = Normal ()" "ls' = ls2\<lparr>round_num := round_num ls2 + 1\<rparr>"
        by (simp_all add: checkpoint_and_eval_def)
      with f1 f2 o2 True show ?thesis by simp
    qed
  qed
qed

lemma loop_body_unfold:
  "loop_body cfg env ls =
     (case attempt_result env ls of
        Raised e \<Rightarrow>
          if transient e
          then (Normal (), (begun env ls)\<lparr>executor_rebuilds := Suc (executor_rebuilds ls)\<rparr>)
          else (Raised e, begun env ls)
      | Normal ir \<Rightarrow>
          round_succeeded cfg env (calls ls) (state ls) (sampled_clients_at env ls) ir
            (begun env ls))"
  by (simp add: loop_body_def attempt_result_def attempt_data_def sampled_clients_at_def
      begun_def Let_def split_beta split: outcome.splits)

lemma begun_fields:
  "state (begun env ls) = state ls"
  "round_num (begun env ls) = round_num ls"
  "unique_clients (begun env ls) = unique_clients ls"
  "checkpoints (begun env ls) = checkpoints ls"
  "metrics_csv (begun env ls) = metrics_csv ls"
  "summary (begun env ls) = summary ls"
  "executor_rebuilds (begun env ls) = executor_rebuilds ls"
  "calls (begun env ls) = Suc (calls ls)"
  "train_metrics (begun env ls) =
     [(''prepare_datasets_secs'', PFloat (secs env (calls ls) ''prepare_datasets_secs''))]"
  by (simp_all add: begun_def)

lemma rest_of_round_fields:
  assumes "rest_of_round cfg env n ls = (out, ls')"
  shows "state ls' = state ls \<and> unique_clients ls' = unique_clients ls
    \<and> calls ls' = calls ls \<and> executor_rebuilds ls' = executor_rebuilds ls
    \<and> (out = Normal () \<or> out = Raised ZeroDivisionError \<or> out = Raised SummaryError)
    \<and> (out = Normal () \<longrightarrow>
           round_num ls' = round_num ls + 1 \<and> rounds_per_checkpoint cfg \<noteq> 0 \<and>
           rounds_per_eval cfg \<noteq> 0 \<and>
           checkpoints ls' =
             (if checkpoint_due cfg (round_num ls)
              then save_checkpoint (state ls) (round_num ls) (checkpoints ls)
              else checkpoints ls))
    \<and> (out \<noteq> Normal () \<longrightarrow> round_num ls' = round_num ls)"
proof (cases "round_num ls + 1 = 0")
  case True
  with assms have "out = Raised ZeroDivisionError" "ls' = ls"
    by (simp_all add: rest_of_round_def)
  then show ?thesis by simp
next
  case False
  with assms have c: "checkpoint_and_eval cfg env n ls = (out, ls')"
    by (simp add: rest_of_round_def)
  from checkpoint_and_eval_fields[OF c] show ?thesis by (auto cong: if_cong)
qed

text \<open>The train metrics of a round before the \<^verbatim>\<open>pop\<close> of line 218.\<close>

lemma round_succeeded_unfold:
  "round_succeeded cfg env n prev cl ir ls =
     (let tm4 = dict_update
                  (dict_set
                    (dict_set
                      (dict_set (train_metrics ls) ''training_secs''
                        (PFloat (secs env n ''training_secs'')))
                      ''model_delta_l2_norm''
                      (PFloat (model_delta_l2 env (result_state ir) prev)))
                    ''num_unique_clients'' (PInt (int (card (unique_clients ls \<union> set cl)))))
                  (result_metrics ir);
          ls3 = ls\<lparr>state := result_state ir, unique_clients := unique_clients ls \<union> set cl,
                   train_metrics := tm4\<rparr>
      in case dict_pop tm4 ''keras_training_time_client_sum_sec'' of
           None \<Rightarrow> (Raised KeyError, ls3)
         | Some tm5 \<Rightarrow> rest_of_round cfg env n (ls3\<lparr>train_metrics := tm5\<rparr>))"
  by (simp add: round_succeeded_def Let_def split: option.splits)

lemma round_succeeded_fields:
  assumes "round_succeeded cfg env n prev cl ir ls = (out, ls')"
  shows "state ls' = result_state ir \<and> unique_clients ls' = unique_clients ls \<union> set cl
      \<and> calls ls' = calls ls \<and> executor_rebuilds ls' = executor_rebuilds ls
      \<and> (out = Normal () \<or> out = Raised ZeroDivisionError \<or> out = Raised SummaryError
           \<or> out = Raised KeyError)
      \<and> (out = Normal () \<longrightarrow>
           round_num ls' = round_num ls + 1 \<and> rounds_per_checkpoint cfg \<noteq> 0 \<and>
           rounds_per_eval cfg \<noteq> 0)
      \<and> (out = Normal () \<longrightarrow>
           checkpoints ls' =
             (if checkpoint_due cfg (round_num ls)
              then save_checkpoint (result_state ir) (round_num ls) (checkpoints ls)
              else checkpoints ls))
      \<and> (out \<noteq> Normal () \<longrightarrow> round_num ls' = round_num ls)"
proof -
  let ?tm4 = "dict_update
                (dict_set
                  (dict_set
                    (dict_set (train_metrics ls) ''training_secs''
                      (PFloat (secs env n ''training_secs'')))
                    ''model_delta_l2_norm''
                    (PFloat (model_delta_l2 env (result_state ir) prev)))
                  ''num_unique_clients'' (PInt (int (card (unique_clients ls \<union> set cl)))))
                (result_metrics ir)"
  let ?ls3 = "ls\<lparr>state := result_state ir, unique_clients := unique_clients ls \<union> set cl,
                 train_metrics := ?tm4\<rparr>"
  show ?thesis
  proof (cases "dict_pop ?tm4 ''keras_training_time_client_sum_sec''")
    case None
    with assms have "out = Raised KeyError" "ls' = ?ls3"
      by (simp_all add: round_succeeded_unfold Let_def)
    then show ?thesis by simp
  next
    case (Some tm5)
    with assms
    have c: "rest_of_round cfg env n (?ls3\<lparr>train_metrics := tm5\<rparr>) = (out, ls')"
      by (simp add: round_succeeded_unfold Let_def)
    from rest_of_round_fields[OF c] show ?thesis by (auto cong: if_cong)
  qed
qed

text \<open>
  What one iteration does to the round number, the state, the checkpoints and the set of
  clients: a retry after a transient fault, a completed round, or an exception.
\<close>

lemma loop_body_cases:
  assumes "loop_body cfg env ls = (out, ls')"
  shows "(\<exists>e. attempt_result env ls = Raised e \<and> transient e \<and> out = Normal ()
            \<and> ls' = (begun env ls)\<lparr>executor_rebuilds := Suc (executor_rebuilds ls)\<rparr>)
       \<or> (\<exists>e. attempt_result env ls = Raised e \<and> \<not> transient e \<and> out = Raised e
            \<and> ls' = begun env ls)
       \<or> (\<exists>ir. attempt_result env ls = Normal ir
            \<and> round_succeeded cfg env (calls ls) (state ls) (sampled_clients_at env ls) ir
                (begun env ls) = (out, ls'))"
proof (cases "attempt_result env ls")
  case (Normal ir)
  with assms show ?thesis by (simp add: loop_body_unfold)
next
  case (Raised e)
  with assms show ?thesis by (cases "transient e") (auto simp: loop_body_unfold)
qed

section \<open>Start and resumption\<close>

lemma startup_fields:
  "state (startup env w) =
     (case load_latest_checkpoint (checkpoints w) of None \<Rightarrow> initialize env | Some (s, r) \<Rightarrow> s)"
  "round_num (startup env w) =
     (case load_latest_checkpoint (checkpoints w) of None \<Rightarrow> 0 | Some (s, r) \<Rightarrow> r + 1)"
  "unique_clients (startup env w) = {}"
  "checkpoints (startup env w) = checkpoints w"
  "metrics_csv (startup env w) = metrics_csv w"
  "summary (startup env w) = summary w"
  "calls (startup env w) = calls w"
  "executor_rebuilds (startup env w) = executor_rebuilds w"
  by (simp_all add: startup_def world.defs loop_state.defs Let_def split: option.splits)

lemma truncate_fields:
  "checkpoints (world.truncate ls) = checkpoints ls"
  "metrics_csv (world.truncate ls) = metrics_csv ls"
  "summary (world.truncate ls) = summary ls"
  "calls (world.truncate ls) = calls ls"
  "executor_rebuilds (world.truncate ls) = executor_rebuilds ls"
  by (simp_all add: world.defs)

lemma load_latest_None: "(load_latest_checkpoint cs = None) = (cs = [])"
  by (cases cs) (auto split: option.splits)

lemma load_latest_max:
  "load_latest_checkpoint cs = Some (s, r) \<Longrightarrow>
     (r, s) \<in> set cs \<and> (\<forall>(r', s') \<in> set cs. r' \<le> r)"
proof (induction cs arbitrary: s r)
  case Nil
  then show ?case by simp
next
  case (Cons c cs)
  obtain r0 s0 where c: "c = (r0, s0)" by (cases c)
  show ?case
  proof (cases "load_latest_checkpoint cs")
    case None
    then have "cs = []" by (simp add: load_latest_None)
    with Cons.prems c show ?thesis by simp
  next
    case (Some p)
    obtain s1 r1 where p: "p = (s1, r1)" by (cases p)
    from Cons.IH[of s1 r1] Some p
    have ih: "(r1, s1) \<in> set cs" "\<forall>(r', s') \<in> set cs. r' \<le> r1" by auto
    show ?thesis
    proof (cases "r0 < r1")
      case True
      with Cons.prems c Some p have "s = s1" "r = r1" by auto
      with ih True c show ?thesis by auto
    next
      case False
      with Cons.prems c Some p have "s = s0" "r = r0" by auto
      with ih False c show ?thesis by fastforce
    qed
  qed
qed



section \<open>Transient faults of the round computation\<close>

lemma transient_simps:
  "transient FailedPreconditionError" "transient NotFoundError" "transient InternalError"
  "\<not> transient KeyError" "\<not> transient ZeroDivisionError" "\<not> transient TypeError"
  "\<not> transient SummaryError" "\<not> transient (OtherError s)"
  by (simp_all add: transient_def)

lemma loop_body_raises:
  assumes "loop_body cfg env ls = (Raised e, ls')"
  shows "\<not> transient e"
proof -
  from loop_body_cases[OF assms]
  consider (fatal) "\<not> transient e"
    | (round) ir where
        "round_succeeded cfg env (calls ls) (state ls) (sampled_clients_at env ls) ir
           (begun env ls) = (Raised e, ls')"
    by auto
  then show ?thesis
  proof cases
    case fatal then show ?thesis .
  next
    case round
    from round_succeeded_fields[OF round]
    have "e = ZeroDivisionError \<or> e = SummaryError \<or> e = KeyError" by simp
    then show ?thesis by (auto simp: transient_simps)
  qed
qed

lemma loop_never_raises_transient:
  "transient e \<Longrightarrow> loop fuel cfg env ls \<noteq> Some (Raised e, ls')"
proof (induction fuel arbitrary: ls)
  case 0
  show ?case by simp
next
  case (Suc fuel)
  show ?case
  proof (cases "round_num ls < total_rounds cfg")
    case False
    then show ?thesis by simp
  next
    case True
    obtain out ls1 where b: "loop_body cfg env ls = (out, ls1)"
      by (cases "loop_body cfg env ls")
    show ?thesis
    proof (cases out)
      case (Normal u)
      with True b Suc.IH[OF Suc.prems, of ls1] show ?thesis by simp
    next
      case (Raised e')
      with b loop_body_raises have "\<not> transient e'" by blast
      with Suc.prems have "e' \<noteq> e" by auto
      with True b Raised show ?thesis by simp
    qed
  qed
qed

lemma loop_body_transient:
  assumes "attempt_result env ls = Raised e" and "transient e"
  shows "loop_body cfg env ls =
           (Normal (), (begun env ls)\<lparr>executor_rebuilds := Suc (executor_rebuilds ls)\<rparr>)"
  using assms by (simp add: loop_body_unfold)

lemma always_transient_attempt:
  assumes "\<forall>n s d. \<exists>e. process_next env n s d = Raised e \<and> transient e"
  shows "\<exists>e. attempt_result env ls = Raised e \<and> transient e"
  using assms by (simp add: attempt_result_def)

lemma loop_retries_forever:
  assumes "\<forall>n s d. \<exists>e. process_next env n s d = Raised e \<and> transient e"
    and "round_num ls < total_rounds cfg"
  shows "loop fuel cfg env ls = None \<and> length (loop_trace fuel cfg env ls) = fuel
         \<and> (\<forall>s \<in> set (loop_trace fuel cfg env ls).
               round_num s = round_num ls \<and> state s = state ls)"
  using assms(2)
proof (induction fuel arbitrary: ls)
  case 0
  then show ?case by simp
next
  case (Suc fuel)
  from always_transient_attempt[OF assms(1)] obtain e
    where e: "attempt_result env ls = Raised e" "transient e" by blast
  let ?ls1 = "(begun env ls)\<lparr>executor_rebuilds := Suc (executor_rebuilds ls)\<rparr>"
  have b: "loop_body cfg env ls = (Normal (), ?ls1)" by (rule loop_body_transient[OF e])
  have r: "round_num ?ls1 = round_num ls" "state ?ls1 = state ls" by (simp_all add: begun_fields)
  from Suc.prems r have "round_num ?ls1 < total_rounds cfg" by simp
  from Suc.IH[OF this] Suc.prems b r show ?case by simp
qed

lemma loop_transient_step:
  assumes "attempt_result env ls = Raised e" and "transient e"
    and "round_num ls < total_rounds cfg"
  shows "loop (Suc fuel) cfg env ls =
           loop fuel cfg env ((begun env ls)\<lparr>executor_rebuilds := Suc (executor_rebuilds ls)\<rparr>)"
    and "loop_trace (Suc fuel) cfg env ls =
           ls # loop_trace fuel cfg env
                  ((begun env ls)\<lparr>executor_rebuilds := Suc (executor_rebuilds ls)\<rparr>)"
  using assms by (simp_all add: loop_body_transient)

lemma loop_fatal_step:
  assumes "attempt_result env ls = Raised e" and "\<not> transient e"
    and "round_num ls < total_rounds cfg"
  shows "loop (Suc fuel) cfg env ls = Some (Raised e, begun env ls)"
  using assms by (simp add: loop_body_unfold)

lemma loop_body_counters:
  assumes "loop_body cfg env ls = (Normal (), ls')"
  shows "calls ls' = Suc (calls ls)"
    and "executor_rebuilds ls' =
           (if attempt_succeeds env ls then executor_rebuilds ls
            else Suc (executor_rebuilds ls))"
    and "round_num ls' = (if attempt_succeeds env ls then round_num ls + 1 else round_num ls)"
    and "\<not> attempt_succeeds env ls \<Longrightarrow> state ls' = state ls"
proof -
  from loop_body_cases[OF assms]
  have "calls ls' = Suc (calls ls)
      \<and> executor_rebuilds ls' =
           (if attempt_succeeds env ls then executor_rebuilds ls
            else Suc (executor_rebuilds ls))
      \<and> round_num ls' = (if attempt_succeeds env ls then round_num ls + 1 else round_num ls)
      \<and> (\<not> attempt_succeeds env ls \<longrightarrow> state ls' = state ls)"
  proof (elim disjE exE conjE)
    fix e assume "attempt_result env ls = Raised e"
      "ls' = (begun env ls)\<lparr>executor_rebuilds := Suc (executor_rebuilds ls)\<rparr>"
    then show ?thesis by (simp add: attempt_succeeds_def begun_fields)
  next
    fix e assume "Normal () = Raised e"
    then show ?thesis by simp
  next
    fix ir assume a: "attempt_result env ls = Normal ir"
      and r: "round_succeeded cfg env (calls ls) (state ls) (sampled_clients_at env ls) ir
                (begun env ls) = (Normal (), ls')"
    from round_succeeded_fields[OF r] a show ?thesis
      by (simp add: attempt_succeeds_def begun_fields)
  qed
  then show "calls ls' = Suc (calls ls)"
    and "executor_rebuilds ls' =
           (if attempt_succeeds env ls then executor_rebuilds ls
            else Suc (executor_rebuilds ls))"
    and "round_num ls' = (if attempt_succeeds env ls then round_num ls + 1 else round_num ls)"
    and "\<not> attempt_succeeds env ls \<Longrightarrow> state ls' = state ls"
    by simp_all
qed

text \<open>
  A loop that ends normally has rebuilt the executor once for every attempt in which
  \<^verbatim>\<open>next\<close> raised.
\<close>

lemma loop_rebuilds:
  "loop fuel cfg env ls = Some (Normal (), ls') \<Longrightarrow>
     executor_rebuilds ls' =
       executor_rebuilds ls +
         length (filter (\<lambda>s. \<not> attempt_succeeds env s) (loop_trace fuel cfg env ls))
     \<and> calls ls' = calls ls + length (loop_trace fuel cfg env ls)"
proof (induction fuel arbitrary: ls)
  case 0
  then show ?case by (simp split: if_splits)
next
  case (Suc fuel)
  show ?case
  proof (cases "round_num ls < total_rounds cfg")
    case False
    with Suc.prems show ?thesis by simp
  next
    case True
    obtain o1 ls1 where b: "loop_body cfg env ls = (o1, ls1)"
      by (cases "loop_body cfg env ls")
    with True Suc.prems have o1: "o1 = Normal ()" by (cases o1) simp_all
    with True Suc.prems b have l: "loop fuel cfg env ls1 = Some (Normal (), ls')" by simp
    from True b o1
    have tr: "loop_trace (Suc fuel) cfg env ls = ls # loop_trace fuel cfg env ls1" by simp
    note c = loop_body_counters[OF b[unfolded o1]]
    from Suc.IH[OF l] c(1,2) show ?thesis unfolding tr by simp
  qed
qed

text \<open>
  Recovery. Take a run in which no iteration ends with an exception and in which \<^verbatim>\<open>next\<close>
  returns in every iteration from the \<open>N\<close>-th on. Given one iteration for each of the first
  \<open>N\<close> and one for every round that is left, the loop ends normally, at \<^verbatim>\<open>total_rounds\<close>.
\<close>

lemma loop_recovers:
  assumes "\<forall>s \<in> set (loop_trace fuel cfg env ls). fst (loop_body cfg env s) = Normal ()"
    and "\<forall>s \<in> set (loop_trace fuel cfg env ls). N \<le> calls s \<longrightarrow> attempt_succeeds env s"
    and "(N - calls ls) + nat (total_rounds cfg - round_num ls) \<le> fuel"
  shows "\<exists>ls'. loop fuel cfg env ls = Some (Normal (), ls')
           \<and> round_num ls' = max (round_num ls) (total_rounds cfg)"
  using assms
proof (induction fuel arbitrary: ls)
  case 0
  then show ?case by simp
next
  case (Suc fuel)
  show ?case
  proof (cases "round_num ls < total_rounds cfg")
    case False
    then show ?thesis by simp
  next
    case True
    then have h: "ls \<in> set (loop_trace (Suc fuel) cfg env ls)" by simp
    with Suc.prems(1) have "fst (loop_body cfg env ls) = Normal ()" by blast
    then obtain ls1 where b: "loop_body cfg env ls = (Normal (), ls1)"
      by (cases "loop_body cfg env ls") simp
    from True b
    have tr: "loop_trace (Suc fuel) cfg env ls = ls # loop_trace fuel cfg env ls1" by simp
    note c = loop_body_counters[OF b]
    have m: "(N - calls ls1) + nat (total_rounds cfg - round_num ls1) \<le> fuel"
    proof (cases "attempt_succeeds env ls")
      case True
      with c(1,3) Suc.prems(3) \<open>round_num ls < total_rounds cfg\<close> show ?thesis by simp
    next
      case False
      with Suc.prems(2) h have "calls ls < N" by force
      with c(1,3) False Suc.prems(3) show ?thesis by simp
    qed
    have p: "\<forall>s \<in> set (loop_trace fuel cfg env ls1). fst (loop_body cfg env s) = Normal ()"
      "\<forall>s \<in> set (loop_trace fuel cfg env ls1). N \<le> calls s \<longrightarrow> attempt_succeeds env s"
      using Suc.prems(1,2) unfolding tr by simp_all
    from Suc.IH[OF p m] obtain ls' where
      l: "loop fuel cfg env ls1 = Some (Normal (), ls')"
      and r: "round_num ls' = max (round_num ls1) (total_rounds cfg)"
      by blast
    from c(3) True r have "round_num ls' = max (round_num ls) (total_rounds cfg)" by auto
    with l True b show ?thesis by simp
  qed
qed

text \<open>
  Claim C2. The exceptions that the loop catches are FailedPreconditionError,
  NotFoundError and InternalError. An iteration in which \<^verbatim>\<open>next\<close> raises one of them
  rebuilds the default executor and ends normally with the round number and the state as
  they were, and the loop goes on from there: its next iteration is an attempt at the
  same round from the same state. Any other exception of \<^verbatim>\<open>next\<close> ends the loop at once. No
  run of the loop ends with one of the three exceptions. There is no cap on the retries:
  when every call of \<^verbatim>\<open>next\<close> fails this way, the loop is still running after any number
  of iterations, each of them an attempt at the same round from the same state; and when
  the calls of \<^verbatim>\<open>next\<close> fail this way only among the first \<open>N\<close> iterations, for any \<open>N\<close>, and
  no iteration ends with another exception, the loop ends normally at \<^verbatim>\<open>total_rounds\<close>,
  having rebuilt the executor once for every failed attempt.
\<close>

theorem transient_fault_retries_round:
  "(\<forall>e. transient e =
          (e = FailedPreconditionError \<or> e = NotFoundError \<or> e = InternalError))
   \<and> (\<forall>e. attempt_result env ls = Raised e \<and> transient e \<longrightarrow>
       loop_body cfg env ls =
         (Normal (), (begun env ls)\<lparr>executor_rebuilds := Suc (executor_rebuilds ls)\<rparr>)
       \<and> round_num (snd (loop_body cfg env ls)) = round_num ls
       \<and> state (snd (loop_body cfg env ls)) = state ls
       \<and> executor_rebuilds (snd (loop_body cfg env ls)) = Suc (executor_rebuilds ls))
   \<and> (\<forall>e fuel. attempt_result env ls = Raised e \<and> transient e
         \<and> round_num ls < total_rounds cfg \<longrightarrow>
       loop (Suc fuel) cfg env ls =
         loop fuel cfg env ((begun env ls)\<lparr>executor_rebuilds := Suc (executor_rebuilds ls)\<rparr>)
       \<and> loop_trace (Suc fuel) cfg env ls =
           ls # loop_trace fuel cfg env
                  ((begun env ls)\<lparr>executor_rebuilds := Suc (executor_rebuilds ls)\<rparr>))
   \<and> (\<forall>e fuel. attempt_result env ls = Raised e \<and> \<not> transient e
         \<and> round_num ls < total_rounds cfg \<longrightarrow>
       loop (Suc fuel) cfg env ls = Some (Raised e, begun env ls))
   \<and> (\<forall>fuel e ls'. transient e \<longrightarrow> loop fuel cfg env ls \<noteq> Some (Raised e, ls'))
   \<and> ((\<forall>n s d. \<exists>e. process_next env n s d = Raised e \<and> transient e)
        \<and> round_num ls < total_rounds cfg \<longrightarrow>
      (\<forall>fuel. loop fuel cfg env ls = None \<and> length (loop_trace fuel cfg env ls) = fuel
         \<and> (\<forall>s \<in> set (loop_trace fuel cfg env ls).
               round_num s = round_num ls \<and> state s = state ls)))
   \<and> (\<forall>N fuel.
        (\<forall>s \<in> set (loop_trace fuel cfg env ls). fst (loop_body cfg env s) = Normal ())
        \<and> (\<forall>s \<in> set (loop_trace fuel cfg env ls). N \<le> calls s \<longrightarrow> attempt_succeeds env s)
        \<and> (N - calls ls) + nat (total_rounds cfg - round_num ls) \<le> fuel \<longrightarrow>
        (\<exists>ls'. loop fuel cfg env ls = Some (Normal (), ls')
           \<and> round_num ls' = max (round_num ls) (total_rounds cfg)
           \<and> executor_rebuilds ls' =
               executor_rebuilds ls +
                 length (filter (\<lambda>s. \<not> attempt_succeeds env s)
                           (loop_trace fuel cfg env ls))))"
proof (intro conjI allI impI)
  fix e
  show "transient e = (e = FailedPreconditionError \<or> e = NotFoundError \<or> e = InternalError)"
    by (simp add: transient_def)
next
  fix e assume a: "attempt_result env ls = Raised e \<and> transient e"
  then have b: "loop_body cfg env ls =
         (Normal (), (begun env ls)\<lparr>executor_rebuilds := Suc (executor_rebuilds ls)\<rparr>)"
    by (simp add: loop_body_transient)
  show "loop_body cfg env ls =
         (Normal (), (begun env ls)\<lparr>executor_rebuilds := Suc (executor_rebuilds ls)\<rparr>)"
    by (rule b)
  show "round_num (snd (loop_body cfg env ls)) = round_num ls"
    "state (snd (loop_body cfg env ls)) = state ls"
    "executor_rebuilds (snd (loop_body cfg env ls)) = Suc (executor_rebuilds ls)"
    by (simp_all add: b begun_fields)
next
  fix e fuel
  assume a: "attempt_result env ls = Raised e \<and> transient e \<and> round_num ls < total_rounds cfg"
  then have a': "attempt_result env ls = Raised e" "transient e"
    "round_num ls < total_rounds cfg"
    by simp_all
  show "loop (Suc fuel) cfg env ls =
         loop fuel cfg env ((begun env ls)\<lparr>executor_rebuilds := Suc (executor_rebuilds ls)\<rparr>)"
    by (rule loop_transient_step(1)[OF a'])
  show "loop_trace (Suc fuel) cfg env ls =
           ls # loop_trace fuel cfg env
                  ((begun env ls)\<lparr>executor_rebuilds := Suc (executor_rebuilds ls)\<rparr>)"
    by (rule loop_transient_step(2)[OF a'])
next
  fix e fuel
  assume "attempt_result env ls = Raised e \<and> \<not> transient e \<and> round_num ls < total_rounds cfg"
  then show "loop (Suc fuel) cfg env ls = Some (Raised e, begun env ls)"
    using loop_fatal_step by blast
next
  fix fuel e ls' assume "transient e"
  then show "loop fuel cfg env ls \<noteq> Some (Raised e, ls')" by (rule loop_never_raises_transient)
next
  fix fuel
  assume a: "(\<forall>n s d. \<exists>e. process_next env n s d = Raised e \<and> transient e)
        \<and> round_num ls < total_rounds cfg"
  from loop_retries_forever[of env ls cfg fuel] a
  show "loop fuel cfg env ls = None" "length (loop_trace fuel cfg env ls) = fuel"
    "\<forall>s \<in> set (loop_trace fuel cfg env ls). round_num s = round_num ls \<and> state s = state ls"
    by simp_all
next
  fix N fuel
  assume a: "(\<forall>s \<in> set (loop_trace fuel cfg env ls). fst (loop_body cfg env s) = Normal ())
        \<and> (\<forall>s \<in> set (loop_trace fuel cfg env ls). N \<le> calls s \<longrightarrow> attempt_succeeds env s)
        \<and> (N - calls ls) + nat (total_rounds cfg - round_num ls) \<le> fuel"
  then have a1: "\<forall>s \<in> set (loop_trace fuel cfg env ls). fst (loop_body cfg env s) = Normal ()"
    and a2: "\<forall>s \<in> set (loop_trace fuel cfg env ls). N \<le> calls s \<longrightarrow> attempt_succeeds env s"
    and a3: "(N - calls ls) + nat (total_rounds cfg - round_num ls) \<le> fuel"
    by simp_all
  from loop_recovers[OF a1 a2 a3] obtain ls' where
    l: "loop fuel cfg env ls = Some (Normal (), ls')"
    and r: "round_num ls' = max (round_num ls) (total_rounds cfg)"
    by blast
  from loop_rebuilds[OF l] l r
  show "\<exists>ls'. loop fuel cfg env ls = Some (Normal (), ls')
           \<and> round_num ls' = max (round_num ls) (total_rounds cfg)
           \<and> executor_rebuilds ls' =
               executor_rebuilds ls +
                 length (filter (\<lambda>s. \<not> attempt_succeeds env s)
                           (loop_trace fuel cfg env ls))"
    by blast
qed

theorem transient_fault_retries_round_witness:
  "round_num (snd (loop_body demo_flags failing_env (startup failing_env fresh_world))) = 0
   \<and> state (snd (loop_body demo_flags failing_env (startup failing_env fresh_world))) = 0
   \<and> executor_rebuilds
        (snd (loop_body demo_flags failing_env (startup failing_env fresh_world))) = 1
   \<and> loop 7 demo_flags failing_env (startup failing_env fresh_world) = None
   \<and> length (loop_trace 7 demo_flags failing_env (startup failing_env fresh_world)) = 7
   \<and> loop 1 demo_flags crashing_env
         (snd (loop_body demo_flags crashing_env (startup crashing_env fresh_world))) =
       Some (Raised (OtherError ''crash''),
             begun crashing_env
               (snd (loop_body demo_flags crashing_env (startup crashing_env fresh_world))))
   \<and> map (attempt_succeeds flaky_env)
        (loop_trace 7 demo_flags flaky_env (startup flaky_env fresh_world)) =
       [False, False, True, False, True, True]
   \<and> map round_num (loop_trace 7 demo_flags flaky_env (startup flaky_env fresh_world)) =
       [0, 0, 0, 1, 1, 2]
   \<and> map state (loop_trace 7 demo_flags flaky_env (startup flaky_env fresh_world)) =
       [0, 0, 0, 1, 1, 2]
   \<and> (\<exists>ls'. loop 7 demo_flags flaky_env (startup flaky_env fresh_world) =
               Some (Normal (), ls')
           \<and> round_num ls' = 3 \<and> executor_rebuilds ls' = 3)
   \<and> loop 1 demo_flags flaky_env (startup flaky_env fresh_world) =
       loop 0 demo_flags flaky_env
         ((begun flaky_env (startup flaky_env fresh_world))\<lparr>executor_rebuilds := 1\<rparr>)
   \<and> loop 2 demo_flags flaky_env (startup flaky_env fresh_world) \<noteq>
       Some (Raised NotFoundError, startup flaky_env fresh_world)"
proof -
  let ?cfg = demo_flags
  let ?env = failing_env
  let ?ls = "startup ?env fresh_world"
  have h1: "attempt_result ?env ?ls = Raised FailedPreconditionError"
    by (simp add: attempt_result_def failing_env_def demo_env_def)
  have h2: "transient FailedPreconditionError" by (simp add: transient_def)
  have h3: "\<forall>n s d. \<exists>e. process_next ?env n s d = Raised e \<and> transient e"
    by (simp add: failing_env_def demo_env_def transient_def)
  have h4: "round_num ?ls < total_rounds ?cfg"
    by (simp add: startup_fields fresh_world_def demo_flags_def)
  have h5: "round_num ?ls = 0" "state ?ls = 0" "executor_rebuilds ?ls = 0"
    by (simp_all add: startup_fields fresh_world_def failing_env_def demo_env_def)
  note a = transient_fault_retries_round[of ?env ?ls ?cfg]
  note a_step = a[THEN conjunct2, THEN conjunct1, rule_format, OF conjI[OF h1 h2]]
  note a_forever = a[THEN conjunct2, THEN conjunct2, THEN conjunct2, THEN conjunct2,
      THEN conjunct2, THEN conjunct1, rule_format, OF conjI[OF h3 h4], of 7]
  from a_step a_forever
  have p1: "round_num (snd (loop_body ?cfg ?env ?ls)) = round_num ?ls"
    "state (snd (loop_body ?cfg ?env ?ls)) = state ?ls"
    "executor_rebuilds (snd (loop_body ?cfg ?env ?ls)) = Suc (executor_rebuilds ?ls)"
    "loop 7 ?cfg ?env ?ls = None" "length (loop_trace 7 ?cfg ?env ?ls) = 7"
    by blast+
  let ?lc = "snd (loop_body demo_flags crashing_env (startup crashing_env fresh_world))"
  have k1: "attempt_result crashing_env ?lc = Raised (OtherError ''crash'')" by code_simp
  have k2: "\<not> transient (OtherError ''crash'')" by (simp add: transient_def)
  have k3: "round_num ?lc < total_rounds demo_flags" by code_simp
  note b = transient_fault_retries_round[of crashing_env ?lc demo_flags]
  note p2 = b[THEN conjunct2, THEN conjunct2, THEN conjunct2, THEN conjunct1, rule_format,
      OF conjI[OF k1 conjI[OF k2 k3]], of 0]
  let ?lf = "startup flaky_env fresh_world"
  have f1: "\<forall>s \<in> set (loop_trace 7 demo_flags flaky_env ?lf).
              fst (loop_body demo_flags flaky_env s) = Normal ()"
    by code_simp
  have f2: "\<forall>s \<in> set (loop_trace 7 demo_flags flaky_env ?lf).
              4 \<le> calls s \<longrightarrow> attempt_succeeds flaky_env s"
    by code_simp
  have f3: "(4 - calls ?lf) + nat (total_rounds demo_flags - round_num ?lf) \<le> 7"
    by (simp add: startup_fields fresh_world_def demo_flags_def)
  have f4: "map (attempt_succeeds flaky_env) (loop_trace 7 demo_flags flaky_env ?lf) =
              [False, False, True, False, True, True]"
    by code_simp
  have f5: "map round_num (loop_trace 7 demo_flags flaky_env ?lf) = [0, 0, 0, 1, 1, 2]"
    by code_simp
  have f6: "map state (loop_trace 7 demo_flags flaky_env ?lf) = [0, 0, 0, 1, 1, 2]"
    by code_simp
  have f7: "round_num ?lf = 0" "executor_rebuilds ?lf = 0"
    by (simp_all add: startup_fields fresh_world_def)
  have f8: "length (filter (\<lambda>s. \<not> attempt_succeeds flaky_env s)
                      (loop_trace 7 demo_flags flaky_env ?lf)) = 3"
    by code_simp
  note t = transient_fault_retries_round[of flaky_env ?lf demo_flags]
  note t_recover = t[THEN conjunct2, THEN conjunct2, THEN conjunct2, THEN conjunct2,
      THEN conjunct2, THEN conjunct2, rule_format, OF conjI[OF f1 conjI[OF f2 f3]]]
  from t_recover obtain ls' where
    l: "loop 7 demo_flags flaky_env ?lf = Some (Normal (), ls')"
    and r: "round_num ls' = max (round_num ?lf) (total_rounds demo_flags)"
    and x: "executor_rebuilds ls' =
              executor_rebuilds ?lf +
                length (filter (\<lambda>s. \<not> attempt_succeeds flaky_env s)
                          (loop_trace 7 demo_flags flaky_env ?lf))"
    by blast
  from r x f7 f8 have q: "round_num ls' = 3" "executor_rebuilds ls' = 3"
    by (simp_all add: demo_flags_def)
  have g1: "attempt_result flaky_env ?lf = Raised FailedPreconditionError" by code_simp
  have g2: "round_num ?lf < total_rounds demo_flags"
    by (simp add: startup_fields fresh_world_def demo_flags_def)
  note t_retry = t[THEN conjunct2, THEN conjunct2, THEN conjunct1, rule_format,
      OF conjI[OF g1 conjI[OF h2 g2]], of 0]
  from t_retry f7 have p3: "loop 1 demo_flags flaky_env ?lf =
       loop 0 demo_flags flaky_env ((begun flaky_env ?lf)\<lparr>executor_rebuilds := 1\<rparr>)"
    by (simp del: loop.simps)
  from p2 have p2': "loop 1 demo_flags crashing_env ?lc =
       Some (Raised (OtherError ''crash''), begun crashing_env ?lc)"
    by (simp del: loop.simps)
  have e: "\<exists>ls'. loop 7 demo_flags flaky_env ?lf = Some (Normal (), ls')
           \<and> round_num ls' = 3 \<and> executor_rebuilds ls' = 3"
    using l q by blast
  from p1 h5 have p1': "round_num (snd (loop_body ?cfg ?env ?ls)) = 0"
    "state (snd (loop_body ?cfg ?env ?ls)) = 0"
    "executor_rebuilds (snd (loop_body ?cfg ?env ?ls)) = 1"
    by simp_all
  have h6: "transient NotFoundError" by (simp add: transient_def)
  note p4 = t[THEN conjunct2, THEN conjunct2, THEN conjunct2, THEN conjunct2, THEN conjunct1,
      rule_format, OF h6, of 2 ?lf]
  from p1' p1(4,5) p2' f4 f5 f6 e p3 p4 show ?thesis by (simp only: simp_thms)
qed

section \<open>The set of clients seen\<close>

lemma loop_body_unique_clients:
  "unique_clients (snd (loop_body cfg env ls)) =
     (if attempt_succeeds env ls
      then unique_clients ls \<union> set (sampled_clients_at env ls)
      else unique_clients ls)"
proof -
  obtain out ls' where b: "loop_body cfg env ls = (out, ls')"
    by (cases "loop_body cfg env ls")
  from loop_body_cases[OF b] show ?thesis
  proof (elim disjE exE conjE)
    fix e assume "attempt_result env ls = Raised e"
      "ls' = (begun env ls)\<lparr>executor_rebuilds := Suc (executor_rebuilds ls)\<rparr>"
    with b show ?thesis by (simp add: attempt_succeeds_def begun_fields)
  next
    fix e assume "attempt_result env ls = Raised e" "ls' = begun env ls"
    with b show ?thesis by (simp add: attempt_succeeds_def begun_fields)
  next
    fix ir assume a: "attempt_result env ls = Normal ir"
      and r: "round_succeeded cfg env (calls ls) (state ls) (sampled_clients_at env ls) ir
                (begun env ls) = (out, ls')"
    from round_succeeded_fields[OF r] a b show ?thesis
      by (simp add: attempt_succeeds_def begun_fields)
  qed
qed

lemma clients_of_successes_Cons:
  "clients_of_successes env (s # tr) =
     (if attempt_succeeds env s then set (sampled_clients_at env s) else {})
       \<union> clients_of_successes env tr"
  by (simp add: clients_of_successes_def)

lemma clients_of_successes_Nil: "clients_of_successes env [] = {}"
  by (simp add: clients_of_successes_def)

lemma loop_unique_clients:
  "loop fuel cfg env ls = Some (out, ls') \<Longrightarrow>
     unique_clients ls' =
       unique_clients ls \<union> clients_of_successes env (loop_trace fuel cfg env ls)"
proof (induction fuel arbitrary: ls)
  case 0
  then show ?case by (simp add: clients_of_successes_Nil split: if_splits)
next
  case (Suc fuel)
  show ?case
  proof (cases "round_num ls < total_rounds cfg")
    case False
    with Suc.prems show ?thesis by (simp add: clients_of_successes_Nil)
  next
    case True
    obtain o1 ls1 where b: "loop_body cfg env ls = (o1, ls1)"
      by (cases "loop_body cfg env ls")
    have u: "unique_clients ls1 =
        (if attempt_succeeds env ls then unique_clients ls \<union> set (sampled_clients_at env ls)
         else unique_clients ls)"
      using loop_body_unique_clients[of cfg env ls] b by simp
    show ?thesis
    proof (cases o1)
      case (Raised e)
      with True b Suc.prems have "ls' = ls1" by simp
      with True b Raised u show ?thesis
        by (simp add: clients_of_successes_Cons clients_of_successes_Nil)
    next
      case (Normal x)
      with True b Suc.prems have "loop fuel cfg env ls1 = Some (out, ls')" by simp
      from Suc.IH[OF this] True b Normal u show ?thesis
        by (auto simp: clients_of_successes_Cons)
    qed
  qed
qed

lemma trace_unique_clients:
  "i < length (loop_trace fuel cfg env ls) \<Longrightarrow>
     unique_clients (loop_trace fuel cfg env ls ! i) =
       unique_clients ls \<union> clients_of_successes env (take i (loop_trace fuel cfg env ls))"
proof (induction fuel arbitrary: ls i)
  case 0
  then show ?case by simp
next
  case (Suc fuel)
  show ?case
  proof (cases "round_num ls < total_rounds cfg")
    case False
    with Suc.prems show ?thesis by simp
  next
    case True
    obtain o1 ls1 where b: "loop_body cfg env ls = (o1, ls1)"
      by (cases "loop_body cfg env ls")
    show ?thesis
    proof (cases i)
      case 0
      with True show ?thesis by (simp add: clients_of_successes_Nil)
    next
      case (Suc j)
      show ?thesis
      proof (cases o1)
        case (Raised e)
        with True b Suc.prems Suc show ?thesis by simp
      next
        case (Normal x)
        with True b have tr: "loop_trace (Suc fuel) cfg env ls = ls # loop_trace fuel cfg env ls1"
          by simp
        with Suc.prems Suc have j: "j < length (loop_trace fuel cfg env ls1)" by simp
        have u: "unique_clients ls1 =
            (if attempt_succeeds env ls then unique_clients ls \<union> set (sampled_clients_at env ls)
             else unique_clients ls)"
          using loop_body_unique_clients[of cfg env ls] b by simp
        from Suc.IH[OF j] u show ?thesis
          unfolding tr Suc by (auto simp: clients_of_successes_Cons)
      qed
    qed
  qed
qed

section \<open>The train metrics of a round\<close>

lemma map_of_rev_None: "(map_of (rev xs) k = None) = (map_of xs k = None)"
  by (simp add: map_of_eq_None_iff)

lemma map_of_dict_set:
  "map_of (dict_set d k v) k' = (if k' = k then Some v else map_of d k')"
  by (simp add: dict_set_def update_conv')

lemma dict_pop_None: "(dict_pop d k = None) = (map_of d k = None)"
  by (simp add: dict_pop_def split: option.splits)

lemma dict_pop_Some:
  "dict_pop d k = Some d' \<Longrightarrow> map_of d' k' = (if k' = k then None else map_of d k')"
  by (auto simp: dict_pop_def delete_conv' split: option.splits)

lemma maybe_checkpoint_train_metrics:
  assumes "maybe_checkpoint cfg env n ls = (out, ls')" and "k \<noteq> ''save_checkpoint_secs''"
  shows "map_of (train_metrics ls') k = map_of (train_metrics ls) k"
proof (cases "rounds_per_checkpoint cfg \<noteq> 0 \<and> checkpoint_due cfg (round_num ls)")
  case True
  with assms(1)
  have "ls' = ls\<lparr>checkpoints := save_checkpoint (state ls) (round_num ls) (checkpoints ls),
               train_metrics := dict_set (train_metrics ls) ''save_checkpoint_secs''
                                  (PFloat (secs env n ''save_checkpoint_secs''))\<rparr>"
    by (simp add: maybe_checkpoint_cases)
  with assms(2) show ?thesis by (simp add: map_of_dict_set)
next
  case False
  with assms(1) have "ls' = ls" by (auto simp: maybe_checkpoint_cases split: if_splits)
  then show ?thesis by simp
qed

lemma checkpoint_and_eval_train_metrics:
  assumes "checkpoint_and_eval cfg env n ls = (out, ls')" and "k \<noteq> ''save_checkpoint_secs''"
  shows "map_of (train_metrics ls') k = map_of (train_metrics ls) k"
proof -
  obtain o1 ls1 where c: "maybe_checkpoint cfg env n ls = (o1, ls1)"
    by (cases "maybe_checkpoint cfg env n ls")
  note t1 = maybe_checkpoint_train_metrics[OF c assms(2)]
  show ?thesis
  proof (cases o1)
    case (Raised e)
    with assms(1) c have "ls' = ls1" by (simp add: checkpoint_and_eval_def)
    with t1 show ?thesis by simp
  next
    case (Normal u)
    obtain o2 ls2 where e: "maybe_evaluate cfg env n ls1 = (o2, ls2)"
      by (cases "maybe_evaluate cfg env n ls1")
    from maybe_evaluate_fields[OF e] have t2: "train_metrics ls2 = train_metrics ls1" by simp
    from assms(1) c e Normal have "train_metrics ls' = train_metrics ls2"
      by (cases o2) (auto simp: checkpoint_and_eval_def)
    with t1 t2 show ?thesis by simp
  qed
qed

lemma rest_of_round_train_metrics:
  assumes "rest_of_round cfg env n ls = (out, ls')" and "k \<noteq> ''save_checkpoint_secs''"
  shows "map_of (train_metrics ls') k = map_of (train_metrics ls) k"
proof (cases "round_num ls + 1 = 0")
  case True
  with assms(1) have "ls' = ls" by (simp add: rest_of_round_def)
  then show ?thesis by simp
next
  case False
  with assms(1) have "checkpoint_and_eval cfg env n ls = (out, ls')"
    by (simp add: rest_of_round_def)
  from checkpoint_and_eval_train_metrics[OF this assms(2)] show ?thesis .
qed

lemma round_succeeded_train_metrics:
  assumes "round_succeeded cfg env n prev cl ir ls = (out, ls')"
    and "map_of (train_metrics ls) ''keras_training_time_client_sum_sec'' = None"
  shows "(out = Raised KeyError) =
           (map_of (result_metrics ir) ''keras_training_time_client_sum_sec'' = None)"
    and "out \<noteq> Raised KeyError \<Longrightarrow>
           map_of (train_metrics ls') ''keras_training_time_client_sum_sec'' = None"
    and "out \<noteq> Raised KeyError \<Longrightarrow>
           map_of (train_metrics ls') ''num_unique_clients'' =
             (case map_of (rev (result_metrics ir)) ''num_unique_clients'' of
                Some v \<Rightarrow> Some v
              | None \<Rightarrow> Some (PInt (int (card (unique_clients ls \<union> set cl)))))"
proof -
  let ?K = "''keras_training_time_client_sum_sec''"
  let ?tm3 = "dict_set
                  (dict_set
                    (dict_set (train_metrics ls) ''training_secs''
                      (PFloat (secs env n ''training_secs'')))
                    ''model_delta_l2_norm''
                    (PFloat (model_delta_l2 env (result_state ir) prev)))
                  ''num_unique_clients'' (PInt (int (card (unique_clients ls \<union> set cl))))"
  let ?tm4 = "dict_update ?tm3 (result_metrics ir)"
  let ?ls3 = "ls\<lparr>state := result_state ir, unique_clients := unique_clients ls \<union> set cl,
                 train_metrics := ?tm4\<rparr>"
  have k3: "map_of ?tm3 ?K = None" using assms(2) by (simp add: map_of_dict_set)
  have k4: "(map_of ?tm4 ?K = None) = (map_of (result_metrics ir) ?K = None)"
  proof -
    have "(map_of ?tm4 ?K = None) = (map_of (rev (result_metrics ir)) ?K = None)"
      unfolding map_of_dict_update using k3
      by (cases "map_of (rev (result_metrics ir)) ?K") simp_all
    then show ?thesis by (simp only: map_of_rev_None)
  qed
  have n4: "map_of ?tm4 ''num_unique_clients'' =
             (case map_of (rev (result_metrics ir)) ''num_unique_clients'' of
                Some v \<Rightarrow> Some v
              | None \<Rightarrow> Some (PInt (int (card (unique_clients ls \<union> set cl)))))"
    by (simp add: map_of_dict_update map_of_dict_set cong: option.case_cong)
  have all: "((out = Raised KeyError) = (map_of (result_metrics ir) ?K = None))
     \<and> (out \<noteq> Raised KeyError \<longrightarrow> map_of (train_metrics ls') ?K = None
          \<and> map_of (train_metrics ls') ''num_unique_clients'' =
             (case map_of (rev (result_metrics ir)) ''num_unique_clients'' of
                Some v \<Rightarrow> Some v
              | None \<Rightarrow> Some (PInt (int (card (unique_clients ls \<union> set cl))))))"
  proof (cases "dict_pop ?tm4 ?K")
    case None
    with assms(1) have "out = Raised KeyError"
      by (simp add: round_succeeded_unfold Let_def)
    with None k4 show ?thesis by (simp add: dict_pop_None)
  next
    case (Some tm5)
    with assms(1)
    have c: "rest_of_round cfg env n (?ls3\<lparr>train_metrics := tm5\<rparr>) = (out, ls')"
      by (simp add: round_succeeded_unfold Let_def)
    from rest_of_round_fields[OF c] have o: "out \<noteq> Raised KeyError" by auto
    from Some have p: "map_of ?tm4 ?K \<noteq> None" by (simp add: dict_pop_None[symmetric])
    have t1: "map_of (train_metrics ls') ?K = map_of tm5 ?K"
      using rest_of_round_train_metrics[OF c, of ?K] by simp
    have t2: "map_of (train_metrics ls') ''num_unique_clients'' =
                map_of tm5 ''num_unique_clients''"
      using rest_of_round_train_metrics[OF c, of "''num_unique_clients''"] by simp
    from dict_pop_Some[OF Some, of ?K] have d1: "map_of tm5 ?K = None" by simp
    from dict_pop_Some[OF Some, of "''num_unique_clients''"]
    have d2: "map_of tm5 ''num_unique_clients'' = map_of ?tm4 ''num_unique_clients''" by simp
    from o p k4 t1 t2 d1 d2 n4 show ?thesis by simp
  qed
  from all show "(out = Raised KeyError) = (map_of (result_metrics ir) ?K = None)"
    and "out \<noteq> Raised KeyError \<Longrightarrow> map_of (train_metrics ls') ?K = None"
    and "out \<noteq> Raised KeyError \<Longrightarrow>
           map_of (train_metrics ls') ''num_unique_clients'' =
             (case map_of (rev (result_metrics ir)) ''num_unique_clients'' of
                Some v \<Rightarrow> Some v
              | None \<Rightarrow> Some (PInt (int (card (unique_clients ls \<union> set cl)))))"
    by simp_all
qed

section \<open>The metrics rows\<close>

lemma flat_metrics_parts:
  "flat_metrics t e (PInt r) =
     ordered_dict
       (map (\<lambda>(path, item). (join ''/'' path, item))
          (map (\<lambda>(path, item). (''eval'' # path, item)) (flatten_with_path e)) @
        [(''round'', PInt r)] @
        map (\<lambda>(path, item). (join ''/'' path, item))
          (map (\<lambda>(path, item). (''train'' # path, item)) (flatten_with_path t)))"
  unfolding flat_metrics_def flatten_top by simp

lemma ordered_dict_key: "(map_of (ordered_dict ps) k = None) = (k \<notin> fst ` set ps)"
  by (simp add: ordered_dict_def map_of_dict_update map_of_eq_None_iff split: option.splits)
     (metis map_of_eq_None_iff map_of_rev_None not_Some_eq)

lemma flatten_dict_paths:
  "(p, v) \<in> set (flatten_with_path (PDict kvs)) \<Longrightarrow>
     \<exists>k p'. p = k # p' \<and> k \<in> fst ` set kvs"
  by (auto simp: image_iff) force

lemma join_single:
  "join ''/'' (k # p') = s \<Longrightarrow> CHR ''/'' \<notin> set s \<Longrightarrow> p' = [] \<and> k = s"
  by (cases p') auto

lemma flat_metrics_train_key_absent:
  assumes "map_of tm k = None" and "CHR ''/'' \<notin> set k"
  shows "map_of (flat_metrics (PDict tm) e (PInt r)) (''train/'' @ k) = None"
proof -
  let ?E = "map (\<lambda>(path, item). (join ''/'' path, item))
              (map (\<lambda>(path, item). (''eval'' # path, item)) (flatten_with_path e))"
  let ?T = "map (\<lambda>(path, item). (join ''/'' path, item))
              (map (\<lambda>(path, item). (''train'' # path, item)) (flatten_with_path (PDict tm)))"
  have nE: "''train/'' @ k \<notin> fst ` set ?E"
  proof
    assume "''train/'' @ k \<in> fst ` set ?E"
    then obtain v where "(''train/'' @ k, v) \<in> set ?E" by force
    from prefixed_names[OF this] show False by auto
  qed
  have nT: "''train/'' @ k \<notin> fst ` set ?T"
  proof
    assume "''train/'' @ k \<in> fst ` set ?T"
    then obtain p v where pv: "(p, v) \<in> set (flatten_with_path (PDict tm))"
      and j: "join ''/'' (''train'' # p) = ''train/'' @ k" by force
    from flatten_dict_paths[OF pv] obtain k' p'
      where p: "p = k' # p'" and k': "k' \<in> fst ` set tm"
      by blast
    from j p have "join ''/'' (k' # p') = k" by simp
    from join_single[OF this assms(2)] have "k' = k" by simp
    with k' assms(1) show False by (simp add: map_of_eq_None_iff)
  qed
  have nR: "''train/'' @ k \<notin> fst ` set [(''round'', PInt r)]" by simp
  from nE nR nT have "''train/'' @ k \<notin> fst ` set (?E @ [(''round'', PInt r)] @ ?T)"
    unfolding set_append image_Un by blast
  then show ?thesis
    unfolding flat_metrics_parts ordered_dict_key .
qed

lemma flat_metrics_no_train_keys:
  assumes "(k, v) \<in> set (flat_metrics (PDict []) e (PInt r))"
  shows "k = ''round'' \<or> (\<exists>s. k = ''eval'' @ s)"
proof -
  let ?E = "map (\<lambda>(path, item). (join ''/'' path, item))
              (map (\<lambda>(path, item). (''eval'' # path, item)) (flatten_with_path e))"
  from assms have "map_of (flat_metrics (PDict []) e (PInt r)) k \<noteq> None"
    by (simp add: map_of_eq_None_iff image_iff) force
  then have "k \<in> fst ` set (?E @ [(''round'', PInt r)] @
      map (\<lambda>(path, item). (join ''/'' path, item))
          (map (\<lambda>(path, item). (''train'' # path, item)) (flatten_with_path (PDict []))))"
    unfolding flat_metrics_parts ordered_dict_key by blast
  then have "k \<in> fst ` set (?E @ [(''round'', PInt r)])" by simp
  then have "k = ''round'' \<or> k \<in> fst ` set ?E" by auto
  then show ?thesis
  proof
    assume "k = ''round''" then show ?thesis by simp
  next
    assume "k \<in> fst ` set ?E"
    then obtain v' where "(k, v') \<in> set ?E" by force
    from prefixed_names[OF this] show ?thesis by simp
  qed
qed

lemma maybe_evaluate_table:
  assumes "maybe_evaluate cfg env n ls = (Normal (), ls')"
  shows "metrics_csv ls' =
           (if round_num ls mod rounds_per_eval cfg = 0
            then table_after_write (metrics_csv ls) (round_num ls)
                   (round_row env n (round_num ls) ls)
            else metrics_csv ls)"
proof (cases "rounds_per_eval cfg = 0")
  case True
  with assms show ?thesis by (simp add: maybe_evaluate_def)
next
  case False
  with assms show ?thesis
    by (auto simp: maybe_evaluate_def write_metrics_ok Let_def table_after_write_def
        round_row_def split: if_splits)
qed

lemma checkpoint_and_eval_table:
  assumes "checkpoint_and_eval cfg env n ls = (Normal (), ls')"
  shows "metrics_csv ls' =
           (if round_num ls mod rounds_per_eval cfg = 0
            then table_after_write (metrics_csv ls) (round_num ls)
                   (round_row env n (round_num ls) ls')
            else metrics_csv ls)"
proof -
  obtain o1 ls1 where c: "maybe_checkpoint cfg env n ls = (o1, ls1)"
    by (cases "maybe_checkpoint cfg env n ls")
  obtain o2 ls2 where e: "maybe_evaluate cfg env n ls1 = (o2, ls2)"
    by (cases "maybe_evaluate cfg env n ls1")
  from assms c have o1: "o1 = Normal ()" by (cases o1) (simp_all add: checkpoint_and_eval_def)
  from assms c e o1 have o2: "o2 = Normal ()"
    by (cases o2) (simp_all add: checkpoint_and_eval_def)
  from assms c e o1 o2 have l: "ls' = ls2\<lparr>round_num := round_num ls2 + 1\<rparr>"
    by (simp add: checkpoint_and_eval_def)
  note f1 = maybe_checkpoint_fields[OF c]
  note f2 = maybe_evaluate_fields[OF e]
  have rr: "round_row env n (round_num ls) ls' = round_row env n (round_num ls1) ls1"
    using f1 f2 l by (simp add: round_row_def)
  from maybe_evaluate_table[OF e[unfolded o2]] f1 l rr show ?thesis by simp
qed

lemma loop_body_table:
  assumes "loop_body cfg env ls = (Normal (), ls')"
  shows "metrics_csv ls' =
           (if attempt_succeeds env ls \<and> round_num ls mod rounds_per_eval cfg = 0
            then table_after_write (metrics_csv ls) (round_num ls)
                   (round_row env (calls ls) (round_num ls) ls')
            else metrics_csv ls)"
proof -
  from loop_body_cases[OF assms] show ?thesis
  proof (elim disjE exE conjE)
    fix e assume "attempt_result env ls = Raised e"
      "ls' = (begun env ls)\<lparr>executor_rebuilds := Suc (executor_rebuilds ls)\<rparr>"
    then show ?thesis by (simp add: attempt_succeeds_def begun_fields)
  next
    fix e assume "Normal () = Raised e"
    then show ?thesis by simp
  next
    fix ir assume a: "attempt_result env ls = Normal ir"
      and r: "round_succeeded cfg env (calls ls) (state ls) (sampled_clients_at env ls) ir
                (begun env ls) = (Normal (), ls')"
    let ?tm4 = "dict_update
                (dict_set
                  (dict_set
                    (dict_set (train_metrics (begun env ls)) ''training_secs''
                      (PFloat (secs env (calls ls) ''training_secs'')))
                    ''model_delta_l2_norm''
                    (PFloat (model_delta_l2 env (result_state ir) (state ls))))
                  ''num_unique_clients''
                  (PInt (int (card (unique_clients (begun env ls) \<union>
                                      set (sampled_clients_at env ls))))))
                (result_metrics ir)"
    from r obtain tm5 where
      c: "rest_of_round cfg env (calls ls)
            ((begun env ls)\<lparr>state := result_state ir,
               unique_clients :=
                 unique_clients (begun env ls) \<union> set (sampled_clients_at env ls),
               train_metrics := ?tm4, train_metrics := tm5\<rparr>) = (Normal (), ls')"
      by (cases "dict_pop ?tm4 ''keras_training_time_client_sum_sec''")
         (simp_all add: round_succeeded_unfold Let_def)
    from c have "checkpoint_and_eval cfg env (calls ls)
            ((begun env ls)\<lparr>state := result_state ir,
               unique_clients :=
                 unique_clients (begun env ls) \<union> set (sampled_clients_at env ls),
               train_metrics := ?tm4, train_metrics := tm5\<rparr>) = (Normal (), ls')"
      by (simp add: rest_of_round_def split: if_splits)
    from checkpoint_and_eval_table[OF this] a show ?thesis
      by (simp add: attempt_succeeds_def begun_fields)
  qed
qed

section \<open>The client training time and the count of clients in the train metrics\<close>

lemma loop_body_train_metrics:
  assumes "attempt_result env ls = Normal ir" and "loop_body cfg env ls = (out, ls')"
  shows "(out = Raised KeyError) =
           (map_of (result_metrics ir) ''keras_training_time_client_sum_sec'' = None)"
    and "out \<noteq> Raised KeyError \<Longrightarrow>
           map_of (train_metrics ls') ''keras_training_time_client_sum_sec'' = None"
    and "out \<noteq> Raised KeyError \<Longrightarrow>
           map_of (train_metrics ls') ''num_unique_clients'' =
             (case map_of (rev (result_metrics ir)) ''num_unique_clients'' of
                Some v \<Rightarrow> Some v
              | None \<Rightarrow> Some (PInt (int (card (unique_clients ls \<union>
                                                   set (sampled_clients_at env ls))))))"
proof -
  from assms
  have r: "round_succeeded cfg env (calls ls) (state ls) (sampled_clients_at env ls) ir
             (begun env ls) = (out, ls')"
    by (simp add: loop_body_unfold)
  have k: "map_of (train_metrics (begun env ls)) ''keras_training_time_client_sum_sec'' = None"
    by (simp add: begun_fields)
  from round_succeeded_train_metrics[OF r k]
  show "(out = Raised KeyError) =
           (map_of (result_metrics ir) ''keras_training_time_client_sum_sec'' = None)"
    and "out \<noteq> Raised KeyError \<Longrightarrow>
           map_of (train_metrics ls') ''keras_training_time_client_sum_sec'' = None"
    and "out \<noteq> Raised KeyError \<Longrightarrow>
           map_of (train_metrics ls') ''num_unique_clients'' =
             (case map_of (rev (result_metrics ir)) ''num_unique_clients'' of
                Some v \<Rightarrow> Some v
              | None \<Rightarrow> Some (PInt (int (card (unique_clients ls \<union>
                                                   set (sampled_clients_at env ls))))))"
    by (simp_all add: begun_fields cong: option.case_cong)
qed

lemma loop_raises_at_once:
  assumes "round_num ls < total_rounds cfg" and "fst (loop_body cfg env ls) = Raised e"
  shows "loop (Suc fuel) cfg env ls = Some (Raised e, snd (loop_body cfg env ls))"
  using assms by (cases "loop_body cfg env ls") simp

text \<open>
  Claim C9. In an iteration in which \<^verbatim>\<open>next\<close> returns, the loop raises KeyError exactly when
  the metrics of the round lack the key \<^verbatim>\<open>keras_training_time_client_sum_sec\<close>, and this
  KeyError ends the loop. Otherwise, in a round that completes, the train metrics no
  longer hold the key, and neither does the metrics row of the round, which is the only
  change to the table.
\<close>

theorem client_training_time_is_popped:
  "(\<forall>ir. attempt_result env ls = Normal ir \<longrightarrow>
       (fst (loop_body cfg env ls) = Raised KeyError) =
         (map_of (result_metrics ir) ''keras_training_time_client_sum_sec'' = None))
   \<and> (\<forall>ir fuel. attempt_result env ls = Normal ir
         \<and> map_of (result_metrics ir) ''keras_training_time_client_sum_sec'' = None
         \<and> round_num ls < total_rounds cfg \<longrightarrow>
       loop (Suc fuel) cfg env ls = Some (Raised KeyError, snd (loop_body cfg env ls)))
   \<and> (\<forall>ir ls'. attempt_result env ls = Normal ir
         \<and> loop_body cfg env ls = (Normal (), ls') \<longrightarrow>
       map_of (train_metrics ls') ''keras_training_time_client_sum_sec'' = None
       \<and> map_of (round_row env (calls ls) (round_num ls) ls')
           ''train/keras_training_time_client_sum_sec'' = None
       \<and> metrics_csv ls' =
           (if round_num ls mod rounds_per_eval cfg = 0
            then table_after_write (metrics_csv ls) (round_num ls)
                   (round_row env (calls ls) (round_num ls) ls')
            else metrics_csv ls))"
proof (intro conjI allI impI)
  fix ir assume a: "attempt_result env ls = Normal ir"
  obtain out ls' where b: "loop_body cfg env ls = (out, ls')"
    by (cases "loop_body cfg env ls")
  from loop_body_train_metrics(1)[OF a b] b
  show "(fst (loop_body cfg env ls) = Raised KeyError) =
         (map_of (result_metrics ir) ''keras_training_time_client_sum_sec'' = None)"
    by simp
next
  fix ir fuel
  assume a: "attempt_result env ls = Normal ir
         \<and> map_of (result_metrics ir) ''keras_training_time_client_sum_sec'' = None
         \<and> round_num ls < total_rounds cfg"
  obtain out ls' where b: "loop_body cfg env ls = (out, ls')"
    by (cases "loop_body cfg env ls")
  from loop_body_train_metrics(1)[OF _ b, of ir] a b
  have f: "fst (loop_body cfg env ls) = Raised KeyError" by simp
  from a have g: "round_num ls < total_rounds cfg" by simp
  show "loop (Suc fuel) cfg env ls = Some (Raised KeyError, snd (loop_body cfg env ls))"
    by (rule loop_raises_at_once[OF g f])
next
  fix ir ls'
  assume a: "attempt_result env ls = Normal ir \<and> loop_body cfg env ls = (Normal (), ls')"
  then have ar: "attempt_result env ls = Normal ir"
    and b: "loop_body cfg env ls = (Normal (), ls')"
    by simp_all
  from loop_body_train_metrics(2)[OF ar b]
  show k: "map_of (train_metrics ls') ''keras_training_time_client_sum_sec'' = None" by simp
  have "map_of (round_row env (calls ls) (round_num ls) ls')
           (''train/'' @ ''keras_training_time_client_sum_sec'') = None"
    unfolding round_row_def by (rule flat_metrics_train_key_absent[OF k]) simp
  then show "map_of (round_row env (calls ls) (round_num ls) ls')
           ''train/keras_training_time_client_sum_sec'' = None" by simp
  from loop_body_table[OF b] ar
  show "metrics_csv ls' =
           (if round_num ls mod rounds_per_eval cfg = 0
            then table_after_write (metrics_csv ls) (round_num ls)
                   (round_row env (calls ls) (round_num ls) ls')
            else metrics_csv ls)"
    by (simp add: attempt_succeeds_def)
qed

theorem client_training_time_is_popped_witness:
  "fst (loop_body \<lparr>total_rounds = 3, rounds_per_eval = 1, rounds_per_checkpoint = 50\<rparr>
          (demo_env (\<lambda>n. None) demo_clients [(''loss'', PFloat 1)])
          (startup (demo_env (\<lambda>n. None) demo_clients [(''loss'', PFloat 1)]) fresh_world)) =
     Raised KeyError
   \<and> map_option fst
       (loop 4 \<lparr>total_rounds = 3, rounds_per_eval = 1, rounds_per_checkpoint = 50\<rparr>
          (demo_env (\<lambda>n. None) demo_clients [(''loss'', PFloat 1)])
          (startup (demo_env (\<lambda>n. None) demo_clients [(''loss'', PFloat 1)]) fresh_world)) =
     Some (Raised KeyError)
   \<and> fst (loop_body \<lparr>total_rounds = 3, rounds_per_eval = 1, rounds_per_checkpoint = 50\<rparr>
          (demo_env (\<lambda>n. None) demo_clients demo_metrics)
          (startup (demo_env (\<lambda>n. None) demo_clients demo_metrics) fresh_world)) = Normal ()
   \<and> map_of (train_metrics
        (snd (loop_body \<lparr>total_rounds = 3, rounds_per_eval = 1, rounds_per_checkpoint = 50\<rparr>
          (demo_env (\<lambda>n. None) demo_clients demo_metrics)
          (startup (demo_env (\<lambda>n. None) demo_clients demo_metrics) fresh_world))))
        ''keras_training_time_client_sum_sec'' = None
   \<and> map_option (map (map fst))
        (metrics_csv
          (snd (loop_body \<lparr>total_rounds = 3, rounds_per_eval = 1, rounds_per_checkpoint = 50\<rparr>
            (demo_env (\<lambda>n. None) demo_clients demo_metrics)
            (startup (demo_env (\<lambda>n. None) demo_clients demo_metrics) fresh_world)))) =
      Some [[''eval/accuracy'', ''eval/evaluate_secs'', ''round'', ''train/loss'',
             ''train/model_delta_l2_norm'', ''train/num_unique_clients'',
             ''train/prepare_datasets_secs'', ''train/save_checkpoint_secs'',
             ''train/training_secs'']]"
proof -
  let ?cfg = "\<lparr>total_rounds = 3, rounds_per_eval = 1, rounds_per_checkpoint = 50\<rparr>"
  let ?bad = "demo_env (\<lambda>n. None) demo_clients [(''loss'', PFloat 1)]"
  let ?good = "demo_env (\<lambda>n. None) demo_clients demo_metrics"
  let ?irb = "\<lparr>result_state = Suc 0, result_metrics = [(''loss'', PFloat 1)]\<rparr>"
  let ?irg = "\<lparr>result_state = Suc 0, result_metrics = demo_metrics\<rparr>"
  have b1: "attempt_result ?bad (startup ?bad fresh_world) = Normal ?irb"
    by (simp add: attempt_result_def demo_env_def startup_fields fresh_world_def)
  have b2: "map_of (result_metrics ?irb) ''keras_training_time_client_sum_sec'' = None"
    by simp
  have b3: "round_num (startup ?bad fresh_world) < total_rounds ?cfg"
    by (simp add: startup_fields fresh_world_def)
  have g1: "attempt_result ?good (startup ?good fresh_world) = Normal ?irg"
    by (simp add: attempt_result_def demo_env_def startup_fields fresh_world_def)
  have g2: "fst (loop_body ?cfg ?good (startup ?good fresh_world)) = Normal ()"
    by code_simp
  then have g3: "loop_body ?cfg ?good (startup ?good fresh_world) =
      (Normal (), snd (loop_body ?cfg ?good (startup ?good fresh_world)))"
    by (metis prod.collapse)
  have g4: "map_option (map (map fst))
        (metrics_csv (snd (loop_body ?cfg ?good (startup ?good fresh_world)))) =
      Some [[''eval/accuracy'', ''eval/evaluate_secs'', ''round'', ''train/loss'',
             ''train/model_delta_l2_norm'', ''train/num_unique_clients'',
             ''train/prepare_datasets_secs'', ''train/save_checkpoint_secs'',
             ''train/training_secs'']]"
    by code_simp
  from client_training_time_is_popped[of ?bad "startup ?bad fresh_world" ?cfg] b1 b2 b3
  have r1: "fst (loop_body ?cfg ?bad (startup ?bad fresh_world)) = Raised KeyError"
    and r2: "loop (Suc 3) ?cfg ?bad (startup ?bad fresh_world) =
      Some (Raised KeyError, snd (loop_body ?cfg ?bad (startup ?bad fresh_world)))"
    by blast+
  from client_training_time_is_popped[of ?good "startup ?good fresh_world" ?cfg] g1 g3
  have r3: "map_of (train_metrics (snd (loop_body ?cfg ?good (startup ?good fresh_world))))
        ''keras_training_time_client_sum_sec'' = None"
    by blast
  have "loop 4 ?cfg ?bad (startup ?bad fresh_world) =
      Some (Raised KeyError, snd (loop_body ?cfg ?bad (startup ?bad fresh_world)))"
    using r2 by (simp add: eval_nat_numeral)
  with r1 g2 r3 g4 show ?thesis by simp
qed

text \<open>
  Claim C7, as the code has it. Take the attempts of a call of \<^verbatim>\<open>run\<close> (the set of clients
  starts empty at every call, also one that resumes from a checkpoint). After an attempt
  that completes its round, and whose round metrics have no entry named
  \<^verbatim>\<open>num_unique_clients\<close>, the train metric \<^verbatim>\<open>num_unique_clients\<close> is the number of distinct
  client ids sampled for the attempts so far in which \<^verbatim>\<open>next\<close> returned.
\<close>

theorem num_unique_clients_counts_successes:
  assumes "i < length (loop_trace fuel cfg env (startup env w))"
    and "attempt_result env (loop_trace fuel cfg env (startup env w) ! i) = Normal ir"
    and "map_of (result_metrics ir) ''num_unique_clients'' = None"
    and "loop_body cfg env (loop_trace fuel cfg env (startup env w) ! i) = (Normal (), ls')"
  shows "map_of (train_metrics ls') ''num_unique_clients'' =
           Some (PInt (int (card (clients_of_successes env
             (take (Suc i) (loop_trace fuel cfg env (startup env w)))))))"
proof -
  let ?tr = "loop_trace fuel cfg env (startup env w)"
  have u: "unique_clients (?tr ! i) = clients_of_successes env (take i ?tr)"
    using trace_unique_clients[OF assms(1)] by (simp add: startup_fields)
  have s: "attempt_succeeds env (?tr ! i)" using assms(2) by (simp add: attempt_succeeds_def)
  have t: "take (Suc i) ?tr = take i ?tr @ [?tr ! i]"
    using assms(1) by (simp add: take_Suc_conv_app_nth)
  have c: "clients_of_successes env (take (Suc i) ?tr) =
             unique_clients (?tr ! i) \<union> set (sampled_clients_at env (?tr ! i))"
    unfolding t u using s by (simp add: clients_of_successes_def)
  from assms(3) have n: "map_of (rev (result_metrics ir)) ''num_unique_clients'' = None"
    by (simp add: map_of_rev_None)
  from loop_body_train_metrics(3)[OF assms(2) assms(4)] n c show ?thesis by simp
qed

theorem num_unique_clients_counts_successes_witness:
  "map_of (train_metrics (snd (loop_body
       \<lparr>total_rounds = 3, rounds_per_eval = 1, rounds_per_checkpoint = 50\<rparr>
       (demo_env (\<lambda>n. None) demo_clients demo_metrics)
       (loop_trace 3 \<lparr>total_rounds = 3, rounds_per_eval = 1, rounds_per_checkpoint = 50\<rparr>
          (demo_env (\<lambda>n. None) demo_clients demo_metrics)
          (startup (demo_env (\<lambda>n. None) demo_clients demo_metrics) fresh_world) ! 2))))
     ''num_unique_clients'' = Some (PInt 4)
   \<and> map (sampled_clients_at (demo_env (\<lambda>n. None) demo_clients demo_metrics))
       (loop_trace 3 \<lparr>total_rounds = 3, rounds_per_eval = 1, rounds_per_checkpoint = 50\<rparr>
          (demo_env (\<lambda>n. None) demo_clients demo_metrics)
          (startup (demo_env (\<lambda>n. None) demo_clients demo_metrics) fresh_world)) =
       [[''a'', ''b''], [''b'', ''c''], [''a'', ''d'']]"
proof -
  let ?cfg = "\<lparr>total_rounds = 3, rounds_per_eval = 1, rounds_per_checkpoint = 50\<rparr>"
  let ?env = "demo_env (\<lambda>n. None) demo_clients demo_metrics"
  let ?tr = "loop_trace 3 ?cfg ?env (startup ?env fresh_world)"
  let ?ir = "\<lparr>result_state = 3, result_metrics = demo_metrics\<rparr>"
  have h1: "2 < length ?tr" by code_simp
  have h2: "attempt_result ?env (?tr ! 2) = Normal ?ir" by code_simp
  have h3: "map_of (result_metrics ?ir) ''num_unique_clients'' = None"
    by (simp add: demo_metrics_def)
  have "fst (loop_body ?cfg ?env (?tr ! 2)) = Normal ()" by code_simp
  then have h4: "loop_body ?cfg ?env (?tr ! 2) =
                   (Normal (), snd (loop_body ?cfg ?env (?tr ! 2)))"
    by (metis prod.collapse)
  have c: "clients_of_successes ?env (take (Suc 2) ?tr) = {''a'', ''b'', ''c'', ''d''}"
    by code_simp
  have s: "map (sampled_clients_at ?env) ?tr = [[''a'', ''b''], [''b'', ''c''], [''a'', ''d'']]"
    by code_simp
  from num_unique_clients_counts_successes[OF h1 h2 h3 h4] c s
  show ?thesis by simp
qed

text \<open>
  Claim C7, as stated, fails in two ways. First, when the round metrics have an entry
  named \<^verbatim>\<open>num_unique_clients\<close>: \<^verbatim>\<open>train_metrics.update(round_metrics)\<close> (line 215) comes
  after the count is stored (line 214) and overwrites it. The first round of the example
  samples the clients a and b, the process reports 99, and 99 is the train metric and
  the value written to the table. Second, after a restart: the set of clients is a local
  of \<^verbatim>\<open>run\<close> (line 183) and starts empty again. In the example round 0 samples a and b and
  is checkpointed, the next call of \<^verbatim>\<open>next\<close> raises an exception that ends the process,
  and the second call of \<^verbatim>\<open>run\<close> resumes at round 1, samples a and d, and writes 2 as the
  count for round 1, though the two rounds sampled three clients.
\<close>

theorem num_unique_clients_overwritten_counterexample:
  "fst (loop_body demo_flags clashing_env (startup clashing_env fresh_world)) = Normal ()
   \<and> unique_clients (snd (loop_body demo_flags clashing_env (startup clashing_env fresh_world))) =
       {''a'', ''b''}
   \<and> cell ''num_unique_clients''
        (train_metrics (snd (loop_body demo_flags clashing_env (startup clashing_env fresh_world)))) =
       Some (PInt 99)
   \<and> column ''train/num_unique_clients''
        (snd (loop_body demo_flags clashing_env (startup clashing_env fresh_world))) =
       [Some (PInt 99)]
   \<and> map_option fst (run 2 every_round_flags crashing_env fresh_world) =
       Some (Raised (OtherError ''crash''))
   \<and> map_option fst (run_twice 2 every_round_flags crashing_env fresh_world) =
       Some (Normal 2)
   \<and> map_option (column ''round'' \<circ> snd)
        (run_twice 2 every_round_flags crashing_env fresh_world) =
       Some [Some (PInt 0), Some (PInt 1), Some (PInt 2)]
   \<and> map_option (column ''train/num_unique_clients'' \<circ> snd)
        (run_twice 2 every_round_flags crashing_env fresh_world) =
       Some [Some (PInt 2), Some (PInt 2), None]"
  by code_simp

section \<open>Failed attempts and the count of clients\<close>

lemma clients_of_successes_mem:
  "(c \<in> clients_of_successes env tr) =
     (\<exists>s \<in> set tr. attempt_succeeds env s \<and> c \<in> set (sampled_clients_at env s))"
  by (auto simp: clients_of_successes_def)

lemma trace_num_unique_clients:
  assumes "i < length (loop_trace fuel cfg env ls)"
    and "attempt_result env (loop_trace fuel cfg env ls ! i) = Normal ir"
    and "map_of (result_metrics ir) ''num_unique_clients'' = None"
    and "loop_body cfg env (loop_trace fuel cfg env ls ! i) = (Normal (), ls')"
  shows "map_of (train_metrics ls') ''num_unique_clients'' =
           Some (PInt (int (card (unique_clients ls \<union>
             clients_of_successes env (take (Suc i) (loop_trace fuel cfg env ls))))))"
proof -
  let ?tr = "loop_trace fuel cfg env ls"
  have u: "unique_clients (?tr ! i) = unique_clients ls \<union> clients_of_successes env (take i ?tr)"
    by (rule trace_unique_clients[OF assms(1)])
  have s: "attempt_succeeds env (?tr ! i)" using assms(2) by (simp add: attempt_succeeds_def)
  have t: "take (Suc i) ?tr = take i ?tr @ [?tr ! i]"
    using assms(1) by (simp add: take_Suc_conv_app_nth)
  have c: "unique_clients ls \<union> clients_of_successes env (take (Suc i) ?tr) =
             unique_clients (?tr ! i) \<union> set (sampled_clients_at env (?tr ! i))"
    unfolding t u using s by (auto simp: clients_of_successes_def)
  from assms(3) have n: "map_of (rev (result_metrics ir)) ''num_unique_clients'' = None"
    by (simp add: map_of_rev_None)
  from loop_body_train_metrics(3)[OF assms(2) assms(4)] n c show ?thesis by simp
qed

text \<open>
  Claim C10, as the code has it. An iteration in which \<^verbatim>\<open>next\<close> raises leaves the set of
  clients seen as it was; an iteration in which \<^verbatim>\<open>next\<close> returns adds the client ids
  sampled for it. So when the loop ends, the set holds, beyond what it held at the start,
  exactly the client ids sampled for the attempts in which \<^verbatim>\<open>next\<close> returned: a client id
  is among them only if it was sampled for such an attempt. And after an attempt that
  completes its round, and whose round metrics have no entry named \<^verbatim>\<open>num_unique_clients\<close>,
  the train metric \<^verbatim>\<open>num_unique_clients\<close> is the size of that set: the number of distinct
  client ids that the set held at the start or that were sampled for the attempts so far
  in which \<^verbatim>\<open>next\<close> returned.
\<close>

theorem failed_attempt_adds_no_clients:
  "(\<forall>e. attempt_result env ls = Raised e \<longrightarrow>
       unique_clients (snd (loop_body cfg env ls)) = unique_clients ls)
   \<and> (\<forall>ir. attempt_result env ls = Normal ir \<longrightarrow>
       unique_clients (snd (loop_body cfg env ls)) =
         unique_clients ls \<union> set (sampled_clients_at env ls))
   \<and> (\<forall>out ls'. loop fuel cfg env ls = Some (out, ls') \<longrightarrow>
       unique_clients ls' =
         unique_clients ls \<union> clients_of_successes env (loop_trace fuel cfg env ls))
   \<and> (\<forall>c tr. (c \<in> clients_of_successes env tr) =
         (\<exists>s \<in> set tr. attempt_succeeds env s \<and> c \<in> set (sampled_clients_at env s)))
   \<and> (\<forall>i ir ls'. i < length (loop_trace fuel cfg env ls)
         \<and> attempt_result env (loop_trace fuel cfg env ls ! i) = Normal ir
         \<and> map_of (result_metrics ir) ''num_unique_clients'' = None
         \<and> loop_body cfg env (loop_trace fuel cfg env ls ! i) = (Normal (), ls') \<longrightarrow>
       map_of (train_metrics ls') ''num_unique_clients'' =
         Some (PInt (int (card (unique_clients ls \<union>
           clients_of_successes env (take (Suc i) (loop_trace fuel cfg env ls)))))))"
proof (intro conjI allI impI)
  fix e assume "attempt_result env ls = Raised e"
  then show "unique_clients (snd (loop_body cfg env ls)) = unique_clients ls"
    by (simp add: loop_body_unique_clients attempt_succeeds_def)
next
  fix ir assume "attempt_result env ls = Normal ir"
  then show "unique_clients (snd (loop_body cfg env ls)) =
               unique_clients ls \<union> set (sampled_clients_at env ls)"
    by (simp add: loop_body_unique_clients attempt_succeeds_def)
next
  fix out ls' assume "loop fuel cfg env ls = Some (out, ls')"
  then show "unique_clients ls' =
               unique_clients ls \<union> clients_of_successes env (loop_trace fuel cfg env ls)"
    by (rule loop_unique_clients)
next
  fix c tr
  show "(c \<in> clients_of_successes env tr) =
          (\<exists>s \<in> set tr. attempt_succeeds env s \<and> c \<in> set (sampled_clients_at env s))"
    by (rule clients_of_successes_mem)
next
  fix i ir ls'
  assume a: "i < length (loop_trace fuel cfg env ls)
         \<and> attempt_result env (loop_trace fuel cfg env ls ! i) = Normal ir
         \<and> map_of (result_metrics ir) ''num_unique_clients'' = None
         \<and> loop_body cfg env (loop_trace fuel cfg env ls ! i) = (Normal (), ls')"
  then have a': "i < length (loop_trace fuel cfg env ls)"
    "attempt_result env (loop_trace fuel cfg env ls ! i) = Normal ir"
    "map_of (result_metrics ir) ''num_unique_clients'' = None"
    "loop_body cfg env (loop_trace fuel cfg env ls ! i) = (Normal (), ls')"
    by simp_all
  show "map_of (train_metrics ls') ''num_unique_clients'' =
         Some (PInt (int (card (unique_clients ls \<union>
           clients_of_successes env (take (Suc i) (loop_trace fuel cfg env ls))))))"
    by (rule trace_num_unique_clients[OF a'])
qed

theorem failed_attempt_adds_no_clients_witness:
  "map_option (\<lambda>r. unique_clients (snd r))
     (loop 3 two_round_flags retry_env (startup retry_env fresh_world)) =
       Some {''a'', ''b'', ''d''}
   \<and> map (sampled_clients_at retry_env)
       (loop_trace 3 two_round_flags retry_env (startup retry_env fresh_world)) =
       [[''a'', ''b''], [''b'', ''c''], [''a'', ''d'']]
   \<and> map (attempt_succeeds retry_env)
       (loop_trace 3 two_round_flags retry_env (startup retry_env fresh_world)) =
       [True, False, True]
   \<and> unique_clients (snd (loop_body two_round_flags retry_env
        (loop_trace 3 two_round_flags retry_env (startup retry_env fresh_world) ! 1))) =
       {''a'', ''b''}
   \<and> unique_clients (snd (loop_body two_round_flags retry_env
        (loop_trace 3 two_round_flags retry_env (startup retry_env fresh_world) ! 2))) =
       {''a'', ''b'', ''d''}
   \<and> map_of (train_metrics (snd (loop_body two_round_flags retry_env
        (loop_trace 3 two_round_flags retry_env (startup retry_env fresh_world) ! 2))))
        ''num_unique_clients'' = Some (PInt 3)"
proof -
  let ?cfg = two_round_flags
  let ?env = retry_env
  let ?ls = "startup ?env fresh_world"
  let ?tr = "loop_trace 3 ?cfg ?env ?ls"
  let ?ir = "\<lparr>result_state = 2, result_metrics = demo_metrics\<rparr>"
  note t = failed_attempt_adds_no_clients[of ?env ?ls ?cfg 3]
  have ne: "loop 3 ?cfg ?env ?ls \<noteq> None" by code_simp
  then obtain out ls' where l: "loop 3 ?cfg ?env ?ls = Some (out, ls')" by auto
  have c: "clients_of_successes ?env ?tr = {''a'', ''b'', ''d''}" by code_simp
  have s: "map (sampled_clients_at ?env) ?tr = [[''a'', ''b''], [''b'', ''c''], [''a'', ''d'']]"
    by code_simp
  have a: "map (attempt_succeeds ?env) ?tr = [True, False, True]" by code_simp
  from t[THEN conjunct2, THEN conjunct2, THEN conjunct1, rule_format, OF l]
  have "unique_clients ls' = unique_clients ?ls \<union> clients_of_successes ?env ?tr" .
  with c have "unique_clients ls' = {''a'', ''b'', ''d''}" by (simp add: startup_fields)
  with l have c1: "map_option (\<lambda>r. unique_clients (snd r)) (loop 3 ?cfg ?env ?ls) =
                     Some {''a'', ''b'', ''d''}"
    by simp
  have f1: "attempt_result ?env (?tr ! 1) = Raised InternalError" by code_simp
  have f2: "unique_clients (?tr ! 1) = {''a'', ''b''}" by code_simp
  from failed_attempt_adds_no_clients[of ?env "?tr ! 1" ?cfg 0,
      THEN conjunct1, rule_format, OF f1] f2
  have c2: "unique_clients (snd (loop_body ?cfg ?env (?tr ! 1))) = {''a'', ''b''}" by simp
  have h1: "2 < length ?tr" by code_simp
  have h2: "attempt_result ?env (?tr ! 2) = Normal ?ir" by code_simp
  have h3: "map_of (result_metrics ?ir) ''num_unique_clients'' = None"
    by (simp add: demo_metrics_def)
  have "fst (loop_body ?cfg ?env (?tr ! 2)) = Normal ()" by code_simp
  then have h4: "loop_body ?cfg ?env (?tr ! 2) = (Normal (), snd (loop_body ?cfg ?env (?tr ! 2)))"
    by (metis prod.collapse)
  have k: "clients_of_successes ?env (take (Suc 2) ?tr) = {''a'', ''b'', ''d''}" by code_simp
  from t[THEN conjunct2, THEN conjunct2, THEN conjunct2, THEN conjunct2, rule_format,
      OF conjI[OF h1 conjI[OF h2 conjI[OF h3 h4]]]]
  have "map_of (train_metrics (snd (loop_body ?cfg ?env (?tr ! 2)))) ''num_unique_clients'' =
          Some (PInt (int (card (unique_clients ?ls \<union>
            clients_of_successes ?env (take (Suc 2) ?tr)))))" .
  with k have c3: "map_of (train_metrics (snd (loop_body ?cfg ?env (?tr ! 2))))
                     ''num_unique_clients'' = Some (PInt 3)"
    by (simp add: startup_fields)
  have g1: "unique_clients (?tr ! 2) \<union> set (sampled_clients_at ?env (?tr ! 2)) =
              {''a'', ''b'', ''d''}"
    by code_simp
  from failed_attempt_adds_no_clients[of ?env "?tr ! 2" ?cfg 0,
      THEN conjunct2, THEN conjunct1, rule_format, OF h2] g1
  have c4: "unique_clients (snd (loop_body ?cfg ?env (?tr ! 2))) = {''a'', ''b'', ''d''}"
    by simp
  from c1 s a c2 c4 c3 show ?thesis by (simp only: simp_thms)
qed

text \<open>
  Claim C10, as stated, fails in its last part when the round metrics have an entry named
  \<^verbatim>\<open>num_unique_clients\<close> of their own. In the example the first attempt at round 0, for
  which the clients a and b are sampled, fails; the second, with the clients b and c,
  succeeds, and the process reports 99. The set of clients holds b and c, and the train
  metric, which is also the value written to the table, is 99.
\<close>

theorem failed_attempt_count_overwritten_counterexample:
  "map (attempt_succeeds clash_after_fault_env)
     (loop_trace 2 one_round_flags clash_after_fault_env
        (startup clash_after_fault_env fresh_world)) = [False, True]
   \<and> map (sampled_clients_at clash_after_fault_env)
       (loop_trace 2 one_round_flags clash_after_fault_env
          (startup clash_after_fault_env fresh_world)) = [[''a'', ''b''], [''b'', ''c'']]
   \<and> map_option (\<lambda>r. (fst r, unique_clients (snd r)))
       (loop 2 one_round_flags clash_after_fault_env
          (startup clash_after_fault_env fresh_world)) = Some (Normal (), {''b'', ''c''})
   \<and> map_option (\<lambda>r. cell ''num_unique_clients'' (train_metrics (snd r)))
       (loop 2 one_round_flags clash_after_fault_env
          (startup clash_after_fault_env fresh_world)) = Some (Some (PInt 99))
   \<and> map_option (\<lambda>r. column ''train/num_unique_clients'' (snd r))
       (loop 2 one_round_flags clash_after_fault_env
          (startup clash_after_fault_env fresh_world)) = Some [Some (PInt 99)]"
  by code_simp

section \<open>Checkpoints\<close>

lemma loop_body_round:
  assumes "loop_body cfg env ls = (Normal (), ls')"
  shows "(\<not> attempt_succeeds env ls \<and> round_num ls' = round_num ls \<and> state ls' = state ls
           \<and> checkpoints ls' = checkpoints ls)
       \<or> (attempt_succeeds env ls \<and> round_num ls' = round_num ls + 1
           \<and> rounds_per_checkpoint cfg \<noteq> 0 \<and> rounds_per_eval cfg \<noteq> 0
           \<and> checkpoints ls' =
               (if checkpoint_due cfg (round_num ls)
                then save_checkpoint (state ls') (round_num ls) (checkpoints ls)
                else checkpoints ls))"
proof -
  from loop_body_cases[OF assms] show ?thesis
  proof (elim disjE exE conjE)
    fix e assume "attempt_result env ls = Raised e"
      "ls' = (begun env ls)\<lparr>executor_rebuilds := Suc (executor_rebuilds ls)\<rparr>"
    then show ?thesis by (simp add: attempt_succeeds_def begun_fields)
  next
    fix e assume "Normal () = Raised e"
    then show ?thesis by simp
  next
    fix ir assume a: "attempt_result env ls = Normal ir"
      and r: "round_succeeded cfg env (calls ls) (state ls) (sampled_clients_at env ls) ir
                (begun env ls) = (Normal (), ls')"
    from round_succeeded_fields[OF r] a show ?thesis
      by (simp add: attempt_succeeds_def begun_fields)
  qed
qed



section \<open>Runs in which every round succeeds\<close>

lemma set_dict_set: "set (dict_set d k v) \<subseteq> insert (k, v) (set d)"
  unfolding dict_set_def by (induction d) auto

lemma set_dict_update: "set (dict_update d e) \<subseteq> set d \<union> set e"
proof (induction e arbitrary: d)
  case Nil
  show ?case by (simp add: dict_update_def)
next
  case (Cons p e)
  obtain k v where p: "p = (k, v)" by (cases p)
  have "dict_update d (p # e) = dict_update (dict_set d k v) e"
    by (simp add: dict_update_def p)
  with Cons.IH[of "dict_set d k v"] set_dict_set[of d k v] p show ?case by auto
qed

lemma set_ordered_dict: "set (ordered_dict ps) \<subseteq> set ps"
  using set_dict_update[of "[]" ps] by (simp add: ordered_dict_def)

lemma scalars_only_dict:
  "scalars_only (PDict kvs) = (\<forall>(k, v) \<in> set kvs. scalars_only v)"
  by (auto simp: scalars_only_def list_all_iff) force+

lemma scalars_only_simps:
  "scalars_only (PFloat x)" "scalars_only (PInt i) = int64 i" "scalars_only (PDict [])"
  by (simp_all add: scalars_only_def)

lemma scalars_only_dict_set:
  "scalars_only (PDict d) \<Longrightarrow> scalars_only v \<Longrightarrow> scalars_only (PDict (dict_set d k v))"
  using set_dict_set[of d k v] unfolding scalars_only_dict by blast



text \<open>The sink takes the flattened metrics when the round number and all leaves are numbers.\<close>

lemma flat_metrics_accepted:
  assumes "int64 r" and "scalars_only t" and "scalars_only e"
  shows "summary_accepts r (flat_metrics t e (PInt r))"
proof -
  have "is_scalar val" if "(name, val) \<in> set (flat_metrics t e (PInt r))" for name val
  proof -
    from that set_ordered_dict
    have "(name, val) \<in> set (map (\<lambda>(path, item). (join ''/'' path, item))
          (map (\<lambda>(path, item). (''eval'' # path, item)) (flatten_with_path e)) @
        [(''round'', PInt r)] @
        map (\<lambda>(path, item). (join ''/'' path, item))
          (map (\<lambda>(path, item). (''train'' # path, item)) (flatten_with_path t)))"
      unfolding flat_metrics_parts by blast
    then consider "\<exists>p. (p, val) \<in> set (flatten_with_path e)" | "val = PInt r"
      | "\<exists>p. (p, val) \<in> set (flatten_with_path t)"
      by auto
    then show ?thesis
      using assms by cases (auto simp: scalars_only_def list_all_iff)
  qed
  with assms(1) show ?thesis by (auto simp: summary_accepts_def list_all_iff)
qed







section \<open>Running again after completion\<close>

lemma load_latest_newest:
  assumes "\<forall>(r', s') \<in> set cs. r' < r"
  shows "load_latest_checkpoint ((r, s) # cs) = Some (s, r)"
proof (cases "load_latest_checkpoint cs")
  case None
  then show ?thesis by simp
next
  case (Some p)
  obtain s1 r1 where p: "p = (s1, r1)" by (cases p)
  from load_latest_max[of cs s1 r1] Some p have "(r1, s1) \<in> set cs" by simp
  with assms have "r1 < r" by auto
  with Some p show ?thesis by simp
qed

lemma startup_resumable:
  "resumable env (startup env w) \<and>
   (\<forall>(r, s) \<in> set (checkpoints (startup env w)). r < round_num (startup env w))"
proof (cases "load_latest_checkpoint (checkpoints w)")
  case None
  then have "checkpoints w = []" by (simp add: load_latest_None)
  with None show ?thesis by (simp add: resumable_def startup_fields)
next
  case (Some p)
  obtain s r where p: "p = (s, r)" by (cases p)
  from load_latest_max[of "checkpoints w" s r] Some p
  have "\<forall>(r', s') \<in> set (checkpoints w). r' \<le> r" by simp
  then have "\<forall>(r', s') \<in> set (checkpoints w). r' < r + 1" by fastforce
  with Some p show ?thesis by (simp add: resumable_def startup_fields)
qed

lemma loop_body_keeps_resumable:
  assumes b: "loop_body cfg env ls = (Normal (), ls')"
    and g: "round_num ls < total_rounds cfg"
    and i: "\<forall>(r, s) \<in> set (checkpoints ls). r < round_num ls"
  shows "(\<forall>(r, s) \<in> set (checkpoints ls'). r < round_num ls')
       \<and> (total_rounds cfg \<le> round_num ls' \<longrightarrow> resumable env ls')"
proof -
  from loop_body_round[OF b] show ?thesis
  proof (elim disjE conjE)
    assume "round_num ls' = round_num ls" "checkpoints ls' = checkpoints ls"
    with g i show ?thesis by simp
  next
    assume r: "round_num ls' = round_num ls + 1"
      and c: "checkpoints ls' =
               (if checkpoint_due cfg (round_num ls)
                then save_checkpoint (state ls') (round_num ls) (checkpoints ls)
                else checkpoints ls)"
    from i have i': "\<forall>(r, s) \<in> set (checkpoints ls). r < round_num ls + 1" by fastforce
    have p1: "\<forall>(r, s) \<in> set (checkpoints ls'). r < round_num ls'"
      using c r i' by (simp add: save_checkpoint_def)
    have p2: "resumable env ls'" if t: "total_rounds cfg \<le> round_num ls'"
    proof -
      from t r g have "round_num ls = total_rounds cfg - 1" by simp
      then have "checkpoint_due cfg (round_num ls)" by (simp add: checkpoint_due_def)
      with c have "checkpoints ls' = (round_num ls, state ls') # checkpoints ls"
        by (simp add: save_checkpoint_def)
      with load_latest_newest[OF i, of "state ls'"] r show ?thesis
        by (simp add: resumable_def)
    qed
    from p1 p2 show ?thesis by blast
  qed
qed

lemma loop_ends_resumable:
  assumes "loop fuel cfg env ls = Some (Normal (), ls')"
    and "\<forall>(r, s) \<in> set (checkpoints ls). r < round_num ls"
    and "total_rounds cfg \<le> round_num ls \<longrightarrow> resumable env ls"
  shows "total_rounds cfg \<le> round_num ls' \<and> resumable env ls'
         \<and> round_num ls' = max (round_num ls) (total_rounds cfg)"
  using assms
proof (induction fuel arbitrary: ls)
  case 0
  then show ?case by (simp split: if_splits)
next
  case (Suc fuel)
  show ?case
  proof (cases "round_num ls < total_rounds cfg")
    case False
    with Suc.prems show ?thesis by simp
  next
    case True
    obtain o1 ls1 where b: "loop_body cfg env ls = (o1, ls1)"
      by (cases "loop_body cfg env ls")
    with True Suc.prems(1) have o1: "o1 = Normal ()" by (cases o1) simp_all
    with True Suc.prems(1) b have l: "loop fuel cfg env ls1 = Some (Normal (), ls')" by simp
    from loop_body_keeps_resumable[OF b[unfolded o1] True Suc.prems(2)]
    have k: "\<forall>(r, s) \<in> set (checkpoints ls1). r < round_num ls1"
      "total_rounds cfg \<le> round_num ls1 \<longrightarrow> resumable env ls1"
      by simp_all
    from loop_body_round[OF b[unfolded o1]] True
    have m: "max (round_num ls1) (total_rounds cfg) = max (round_num ls) (total_rounds cfg)"
      by auto
    from Suc.IH[OF l k] m show ?thesis by simp
  qed
qed

lemma final_evaluation_result:
  "final_evaluation cfg env ls =
     (if summary_accepts (total_rounds cfg) (final_row cfg env ls)
      then (Normal (state ls),
            ls\<lparr>summary := summary ls @
                 map (\<lambda>(name, val). (name, val, total_rounds cfg)) (final_row cfg env ls),
               metrics_csv := table_after_write (metrics_csv ls) (total_rounds cfg)
                                (final_row cfg env ls)\<rparr>)
      else (Raised SummaryError,
            ls\<lparr>summary := summary ls @
                 map (\<lambda>(name, val). (name, val, total_rounds cfg))
                   (takeWhile (\<lambda>(name, val). is_scalar val \<and> int64 (total_rounds cfg))
                      (final_row cfg env ls))\<rparr>))"
  by (simp add: final_evaluation_def final_row_def table_after_write_def write_metrics_ok
      Let_def)

lemma run_normal:
  assumes "run fuel cfg env w = Some (Normal st, w')"
  shows "\<exists>ls. loop fuel cfg env (startup env w) = Some (Normal (), ls) \<and> st = state ls
           \<and> checkpoints w' = checkpoints ls \<and> calls w' = calls ls
           \<and> summary_accepts (total_rounds cfg) (final_row cfg env ls)
           \<and> metrics_csv w' = table_after_write (metrics_csv ls) (total_rounds cfg)
                                 (final_row cfg env ls)"
proof (cases "loop fuel cfg env (startup env w)")
  case None
  with assms show ?thesis by (simp add: run_def)
next
  case (Some p)
  obtain out ls where p: "p = (out, ls)" by (cases p)
  show ?thesis
  proof (cases out)
    case (Raised e)
    with assms Some p show ?thesis by (simp add: run_def)
  next
    case (Normal u)
    with assms Some p show ?thesis
      by (cases "summary_accepts (total_rounds cfg) (final_row cfg env ls)")
         (auto simp: run_def final_evaluation_result truncate_fields)
  qed
qed

lemma loop_nothing_to_do:
  "total_rounds cfg \<le> round_num ls \<Longrightarrow>
     loop fuel cfg env ls = Some (Normal (), ls) \<and> loop_trace fuel cfg env ls = []"
  by (cases fuel) simp_all

text \<open>
  Claim C8. When a call of \<^verbatim>\<open>run\<close> has returned a state, a second call on the world it
  left (the same checkpoint store) returns the same state without beginning a single
  iteration of the loop, whatever it is allowed: it resumes at a round number that is
  not below \<^verbatim>\<open>total_rounds\<close>, equal to it when the first call did not start beyond it, and
  it leaves the checkpoint store as it found it.
\<close>

theorem rerun_after_completion:
  assumes "run fuel cfg env w = Some (Normal st, w')"
  shows "\<exists>w''. run fuel' cfg env w' = Some (Normal st, w'')
           \<and> loop_trace fuel' cfg env (startup env w') = []
           \<and> checkpoints w'' = checkpoints w' \<and> calls w'' = calls w'
           \<and> total_rounds cfg \<le> round_num (startup env w')
           \<and> (round_num (startup env w) \<le> total_rounds cfg \<longrightarrow>
                round_num (startup env w') = total_rounds cfg)"
proof -
  from run_normal[OF assms] obtain ls where
    l: "loop fuel cfg env (startup env w) = Some (Normal (), ls)" and s: "st = state ls"
    and c: "checkpoints w' = checkpoints ls" and n': "calls w' = calls ls"
    and acc: "summary_accepts (total_rounds cfg) (final_row cfg env ls)"
    by blast
  from startup_resumable[of env w]
  have "\<forall>(r, s) \<in> set (checkpoints (startup env w)). r < round_num (startup env w)"
    "total_rounds cfg \<le> round_num (startup env w) \<longrightarrow> resumable env (startup env w)"
    by simp_all
  from loop_ends_resumable[OF l this]
  have e: "total_rounds cfg \<le> round_num ls" "resumable env ls"
    "round_num ls = max (round_num (startup env w)) (total_rounds cfg)"
    by simp_all
  from e(2) c have st2: "state (startup env w') = state ls"
    and r2: "round_num (startup env w') = round_num ls"
    by (auto simp: resumable_def startup_fields split: option.splits)
  from e(1) r2 have g: "total_rounds cfg \<le> round_num (startup env w')" by simp
  note n = loop_nothing_to_do[OF g, of fuel' env]
  let ?ls2 = "startup env w'"
  let ?w2 = "world.truncate (snd (final_evaluation cfg env ?ls2))"
  have "final_row cfg env ?ls2 = final_row cfg env ls"
    using st2 n' by (simp add: final_row_def startup_fields)
  with acc have acc2: "summary_accepts (total_rounds cfg) (final_row cfg env ?ls2)" by simp
  have "run fuel' cfg env w' = Some (Normal st, ?w2)"
    using n st2 s acc2 by (simp add: run_def final_evaluation_result)
  moreover have "checkpoints ?w2 = checkpoints w'" "calls ?w2 = calls w'"
    using acc2 by (simp_all add: final_evaluation_result truncate_fields startup_fields)
  moreover have "round_num (startup env w) \<le> total_rounds cfg \<longrightarrow>
                round_num (startup env w') = total_rounds cfg"
    using e(3) r2 by simp
  ultimately show ?thesis using n g by blast
qed

theorem rerun_after_completion_witness:
  "\<exists>w' w''. run 3 demo_flags steady_env fresh_world = Some (Normal 3, w')
      \<and> run 0 demo_flags steady_env w' = Some (Normal 3, w'')
      \<and> loop_trace 7 demo_flags steady_env (startup steady_env w') = []
      \<and> round_num (startup steady_env w') = 3
      \<and> checkpoints w'' = checkpoints w'"
proof -
  have "map_option fst (run 3 demo_flags steady_env fresh_world) = Some (Normal 3)"
    by code_simp
  then obtain w' where r: "run 3 demo_flags steady_env fresh_world = Some (Normal 3, w')"
    by auto
  have s: "round_num (startup steady_env fresh_world) \<le> total_rounds demo_flags"
    by (simp add: startup_fields fresh_world_def demo_flags_def)
  have t: "total_rounds demo_flags = 3" by (simp add: demo_flags_def)
  from rerun_after_completion[OF r, of 0] s t obtain w'' where
    a: "run 0 demo_flags steady_env w' = Some (Normal 3, w'')"
       "checkpoints w'' = checkpoints w'" "round_num (startup steady_env w') = 3"
    by auto
  from rerun_after_completion[OF r, of 7]
  have b: "loop_trace 7 demo_flags steady_env (startup steady_env w') = []" by blast
  from r a b show ?thesis by blast
qed

section \<open>The final evaluation\<close>

lemma flatten_leaf: "\<not> is_dict v \<Longrightarrow> flatten_with_path v = [([], v)]"
  by (cases v) simp_all

lemma set_flatten_flat:
  assumes "list_all (\<lambda>(k, v). \<not> is_dict v) d"
  shows "set (flatten_with_path (PDict d)) = (\<lambda>(k, v). ([k], v)) ` set d"
proof -
  have l: "\<And>k v. (k, v) \<in> set d \<Longrightarrow> flatten_with_path v = [([], v)]"
    using assms by (auto simp: list_all_iff intro: flatten_leaf)
  have "set (flatten_with_path (PDict d)) =
          (\<Union>(k, v) \<in> set d. (\<lambda>(path, item). (k # path, item)) ` set (flatten_with_path v))"
    by (auto simp: image_iff) force+
  also have "\<dots> = (\<Union>(k, v) \<in> set d. {([k], v)})"
    using l by auto
  also have "\<dots> = (\<lambda>(k, v). ([k], v)) ` set d" by auto
  finally show ?thesis .
qed

lemma map_of_unique:
  assumes "(k, v) \<in> set xs" and "\<And>v'. (k, v') \<in> set xs \<Longrightarrow> v' = v"
  shows "map_of xs k = Some v"
proof (cases "map_of xs k")
  case None
  with assms(1) show ?thesis by (simp add: map_of_eq_None_iff image_iff) force
next
  case (Some v')
  then have "(k, v') \<in> set xs" by (rule map_of_SomeD)
  with assms(2) Some show ?thesis by simp
qed

lemma map_of_ordered_dict: "map_of (ordered_dict ps) k = map_of (rev ps) k"
  by (simp add: ordered_dict_def map_of_dict_update split: option.splits)

lemma map_of_rev_middle:
  "map_of (rev ts) k = None \<Longrightarrow> k \<noteq> rk \<Longrightarrow>
     map_of (rev (es @ [(rk, rv)] @ ts)) k = map_of (rev es) k"
  by (simp add: map_add_def)

lemma flat_metrics_eval_cell:
  assumes "flat_dict d"
  shows "map_of (flat_metrics t (PDict d) (PInt r)) (''eval/'' @ k) = map_of d k"
proof -
  let ?E = "map (\<lambda>(path, item). (join ''/'' path, item))
              (map (\<lambda>(path, item). (''eval'' # path, item)) (flatten_with_path (PDict d)))"
  let ?T = "map (\<lambda>(path, item). (join ''/'' path, item))
              (map (\<lambda>(path, item). (''train'' # path, item)) (flatten_with_path t))"
  from assms have dd: "distinct (map fst d)" and la: "list_all (\<lambda>(k, v). \<not> is_dict v) d"
    by (simp_all add: flat_dict_def)
  have sE: "set ?E = (\<lambda>(k, v). (''eval/'' @ k, v)) ` set d"
  proof -
    have "set ?E = (\<lambda>(path, item). (join ''/'' path, item)) `
                     (\<lambda>(path, item). (''eval'' # path, item)) `
                       set (flatten_with_path (PDict d))"
      by (simp only: set_map)
    also have "\<dots> = (\<lambda>(path, item). (join ''/'' path, item)) `
                     (\<lambda>(path, item). (''eval'' # path, item)) `
                       (\<lambda>(k, v). ([k], v)) ` set d"
      by (simp only: set_flatten_flat[OF la])
    also have "\<dots> = (\<lambda>(k, v). (''eval/'' @ k, v)) ` set d"
      by (simp add: image_image split_beta)
    finally show ?thesis .
  qed
  have nT: "map_of (rev ?T) (''eval/'' @ k) = None"
  proof (rule ccontr)
    assume "map_of (rev ?T) (''eval/'' @ k) \<noteq> None"
    then obtain v where "map_of (rev ?T) (''eval/'' @ k) = Some v" by auto
    then have "(''eval/'' @ k, v) \<in> set ?T" using map_of_SomeD by fastforce
    from prefixed_names[OF this] show False by auto
  qed
  have E: "map_of (rev ?E) (''eval/'' @ k) = map_of d k"
  proof (cases "map_of d k")
    case None
    then have "k \<notin> fst ` set d" by (simp add: map_of_eq_None_iff)
    then have "''eval/'' @ k \<notin> fst ` set (rev ?E)" unfolding set_rev sE by force
    with None show ?thesis by (simp only: map_of_eq_None_iff[symmetric])
  next
    case (Some v)
    then have m: "(k, v) \<in> set d" by (rule map_of_SomeD)
    have "map_of (rev ?E) (''eval/'' @ k) = Some v"
    proof (rule map_of_unique)
      from m show "(''eval/'' @ k, v) \<in> set (rev ?E)" unfolding set_rev sE by force
    next
      fix v' assume "(''eval/'' @ k, v') \<in> set (rev ?E)"
      then have "(k, v') \<in> set d" unfolding set_rev sE by auto
      with m dd show "v' = v" by (meson eq_key_imp_eq_value)
    qed
    with Some show ?thesis by simp
  qed
  have "map_of (flat_metrics t (PDict d) (PInt r)) (''eval/'' @ k) =
          map_of (rev (?E @ [(''round'', PInt r)] @ ?T)) (''eval/'' @ k)"
    unfolding flat_metrics_parts map_of_ordered_dict by (rule refl)
  also have "\<dots> = map_of (rev ?E) (''eval/'' @ k)"
    by (rule map_of_rev_middle[OF nT]) simp
  finally show ?thesis using E by (simp only:)
qed

lemma flat_dict_set: "flat_dict d \<Longrightarrow> \<not> is_dict v \<Longrightarrow> flat_dict (dict_set d k v)"
  using set_dict_set[of d k v]
  by (auto simp: flat_dict_def list_all_iff dict_set_def distinct_update)

lemma trace_rounds:
  "s \<in> set (loop_trace fuel cfg env ls) \<Longrightarrow> round_num s < total_rounds cfg"
proof (induction fuel arbitrary: ls)
  case 0
  then show ?case by simp
next
  case (Suc fuel)
  show ?case
  proof (cases "round_num ls < total_rounds cfg")
    case False
    with Suc.prems show ?thesis by simp
  next
    case True
    obtain o1 ls1 where b: "loop_body cfg env ls = (o1, ls1)"
      by (cases "loop_body cfg env ls")
    from Suc.prems True b have "s = ls \<or> (s \<in> set (loop_trace fuel cfg env ls1))"
      by (cases o1) auto
    with True Suc.IH show ?thesis by blast
  qed
qed

text \<open>
  Claim C6. The final evaluation calls the evaluation function on the state the loop ended
  in with the test flag set. When the sink takes the metrics, which it does when
  \<^verbatim>\<open>total_rounds\<close> is an integer of 64 bits and the test metrics are numbers, the evaluation
  returns that state and makes one write to the table: the row \<open>final_row\<close>, whose round
  number is \<^verbatim>\<open>total_rounds\<close>, which has no train column, and whose eval columns hold the test
  metrics (read back by key when these are a dictionary of scalars). When the sink
  refuses them, the evaluation ends with the sink's exception and the table is as it was.
  Every iteration of the loop runs at a round number below \<^verbatim>\<open>total_rounds\<close> and writes at
  most one row, under that round number. A call of \<^verbatim>\<open>run\<close> that returns leaves the table
  of the loop's end with the final row written to it.
\<close>

theorem final_evaluation_row:
  "(summary_accepts (total_rounds cfg) (final_row cfg env ls) \<longrightarrow>
      final_evaluation cfg env ls =
        (Normal (state ls),
         ls\<lparr>summary := summary ls @
              map (\<lambda>(name, val). (name, val, total_rounds cfg)) (final_row cfg env ls),
            metrics_csv := table_after_write (metrics_csv ls) (total_rounds cfg)
                             (final_row cfg env ls)\<rparr>))
   \<and> (int64 (total_rounds cfg)
        \<and> scalars_only (PDict (evaluate_fn env (calls ls) (state ls) True)) \<longrightarrow>
      summary_accepts (total_rounds cfg) (final_row cfg env ls))
   \<and> (\<not> summary_accepts (total_rounds cfg) (final_row cfg env ls) \<longrightarrow>
      fst (final_evaluation cfg env ls) = Raised SummaryError
      \<and> metrics_csv (snd (final_evaluation cfg env ls)) = metrics_csv ls)
   \<and> round_of (final_row cfg env ls) = Some (PInt (total_rounds cfg))
   \<and> (\<forall>k v. (k, v) \<in> set (final_row cfg env ls) \<longrightarrow>
        k = ''round'' \<or> (\<exists>s. k = ''eval'' @ s))
   \<and> (flat_dict (evaluate_fn env (calls ls) (state ls) True) \<longrightarrow>
        (\<forall>k. cell (''eval/'' @ k) (final_row cfg env ls) =
               map_of (dict_set (evaluate_fn env (calls ls) (state ls) True) ''evaluate_secs''
                         (PFloat (secs env (calls ls) ''evaluate_secs''))) k))
   \<and> (\<forall>s \<in> set (loop_trace fuel cfg env (startup env w)).
        round_num s < total_rounds cfg
        \<and> (\<forall>s'. loop_body cfg env s = (Normal (), s') \<longrightarrow>
             metrics_csv s' = metrics_csv s
             \<or> metrics_csv s' = table_after_write (metrics_csv s) (round_num s)
                                   (round_row env (calls s) (round_num s) s')
               \<and> round_of (round_row env (calls s) (round_num s) s') =
                   Some (PInt (round_num s))))
   \<and> (\<forall>st w'. run fuel cfg env w = Some (Normal st, w') \<longrightarrow>
        (\<exists>ls'. loop fuel cfg env (startup env w) = Some (Normal (), ls')
           \<and> metrics_csv w' = table_after_write (metrics_csv ls') (total_rounds cfg)
                                 (final_row cfg env ls')))"
proof (intro conjI allI impI ballI)
  assume "summary_accepts (total_rounds cfg) (final_row cfg env ls)"
  then show "final_evaluation cfg env ls =
     (Normal (state ls),
      ls\<lparr>summary := summary ls @
           map (\<lambda>(name, val). (name, val, total_rounds cfg)) (final_row cfg env ls),
         metrics_csv := table_after_write (metrics_csv ls) (total_rounds cfg)
                          (final_row cfg env ls)\<rparr>)"
    by (simp add: final_evaluation_result)
next
  assume a: "int64 (total_rounds cfg)
        \<and> scalars_only (PDict (evaluate_fn env (calls ls) (state ls) True))"
  then have "scalars_only (PDict (dict_set (evaluate_fn env (calls ls) (state ls) True)
               ''evaluate_secs'' (PFloat (secs env (calls ls) ''evaluate_secs''))))"
    by (simp add: scalars_only_dict_set scalars_only_simps)
  with a show "summary_accepts (total_rounds cfg) (final_row cfg env ls)"
    unfolding final_row_def
    by (intro flat_metrics_accepted) (simp_all add: scalars_only_simps)
next
  assume n: "\<not> summary_accepts (total_rounds cfg) (final_row cfg env ls)"
  then show "fst (final_evaluation cfg env ls) = Raised SummaryError"
    by (simp add: final_evaluation_result)
  from n show "metrics_csv (snd (final_evaluation cfg env ls)) = metrics_csv ls"
    by (simp add: final_evaluation_result)
next
  show "round_of (final_row cfg env ls) = Some (PInt (total_rounds cfg))"
    by (simp add: final_row_def round_of_flat_metrics)
next
  fix k v assume "(k, v) \<in> set (final_row cfg env ls)"
  then show "k = ''round'' \<or> (\<exists>s. k = ''eval'' @ s)"
    unfolding final_row_def by (rule flat_metrics_no_train_keys)
next
  fix k assume "flat_dict (evaluate_fn env (calls ls) (state ls) True)"
  then have "flat_dict (dict_set (evaluate_fn env (calls ls) (state ls) True) ''evaluate_secs''
                         (PFloat (secs env (calls ls) ''evaluate_secs'')))"
    by (rule flat_dict_set) simp
  then show "cell (''eval/'' @ k) (final_row cfg env ls) =
               map_of (dict_set (evaluate_fn env (calls ls) (state ls) True) ''evaluate_secs''
                         (PFloat (secs env (calls ls) ''evaluate_secs''))) k"
    unfolding cell_def final_row_def by (rule flat_metrics_eval_cell)
next
  fix s assume "s \<in> set (loop_trace fuel cfg env (startup env w))"
  then show "round_num s < total_rounds cfg" by (rule trace_rounds)
next
  fix s s' assume "loop_body cfg env s = (Normal (), s')"
  from loop_body_table[OF this]
  show "metrics_csv s' = metrics_csv s
             \<or> metrics_csv s' = table_after_write (metrics_csv s) (round_num s)
                                   (round_row env (calls s) (round_num s) s')
               \<and> round_of (round_row env (calls s) (round_num s) s') =
                   Some (PInt (round_num s))"
    by (simp add: round_row_def round_of_flat_metrics split: if_splits)
next
  fix st w' assume "run fuel cfg env w = Some (Normal st, w')"
  from run_normal[OF this]
  show "\<exists>ls'. loop fuel cfg env (startup env w) = Some (Normal (), ls')
           \<and> metrics_csv w' = table_after_write (metrics_csv ls') (total_rounds cfg)
                                 (final_row cfg env ls')"
    by blast
qed

theorem final_evaluation_row_witness:
  "fst (final_evaluation demo_flags steady_env (startup steady_env fresh_world)) = Normal 0
   \<and> round_of (final_row demo_flags steady_env (startup steady_env fresh_world)) = Some (PInt 3)
   \<and> cell ''eval/accuracy'' (final_row demo_flags steady_env (startup steady_env fresh_world)) =
       Some (PFloat 1)
   \<and> final_row demo_flags steady_env (startup steady_env fresh_world) =
       [(''eval/accuracy'', PFloat 1), (''eval/evaluate_secs'', PFloat 0), (''round'', PInt 3)]
   \<and> map round_num (loop_trace 3 demo_flags steady_env (startup steady_env fresh_world)) =
       [0, 1, 2]
   \<and> (\<exists>w'. run 3 demo_flags steady_env fresh_world = Some (Normal 3, w')
         \<and> map_option (map round_of) (metrics_csv w') =
             Some [Some (PInt 0), Some (PInt 1), Some (PInt 2), Some (PInt 3)])
   \<and> fst (final_evaluation demo_flags dying_env
             (startup dying_env (fresh_world\<lparr>calls := 1\<rparr>))) = Raised SummaryError
   \<and> metrics_csv (snd (final_evaluation demo_flags dying_env
                          (startup dying_env (fresh_world\<lparr>calls := 1\<rparr>)))) = None"
proof -
  let ?ls = "startup steady_env fresh_world"
  let ?ls2 = "startup dying_env (fresh_world\<lparr>calls := 1\<rparr>)"
  note t = final_evaluation_row[of demo_flags steady_env ?ls 3 fresh_world]
  note t2 = final_evaluation_row[of demo_flags dying_env ?ls2 0 fresh_world]
  have na: "\<not> summary_accepts (total_rounds demo_flags) (final_row demo_flags dying_env ?ls2)"
    by code_simp
  from t2 na have c5: "fst (final_evaluation demo_flags dying_env ?ls2) = Raised SummaryError"
    by blast
  from t2 na
  have "metrics_csv (snd (final_evaluation demo_flags dying_env ?ls2)) = metrics_csv ?ls2"
    by blast
  then have c6: "metrics_csv (snd (final_evaluation demo_flags dying_env ?ls2)) = None"
    by (simp add: startup_fields fresh_world_def)
  have fd: "flat_dict (evaluate_fn steady_env (calls ?ls) (state ?ls) True)"
    by (simp add: flat_dict_def steady_env_def demo_env_def)
  have ev: "map_of (dict_set (evaluate_fn steady_env (calls ?ls) (state ?ls) True)
                      ''evaluate_secs''
                      (PFloat (secs steady_env (calls ?ls) ''evaluate_secs''))) ''accuracy'' =
             Some (PFloat 1)"
    by (simp add: steady_env_def demo_env_def map_of_dict_set)
  have tr: "map round_num (loop_trace 3 demo_flags steady_env ?ls) = [0, 1, 2]" by code_simp
  have fr: "final_row demo_flags steady_env ?ls =
       [(''eval/accuracy'', PFloat 1), (''eval/evaluate_secs'', PFloat 0), (''round'', PInt 3)]"
    by code_simp
  have st: "state ?ls = 0"
    by (simp add: startup_fields fresh_world_def steady_env_def demo_env_def)
  have rs: "map_option (\<lambda>r. map_option (map round_of) (metrics_csv (snd r)))
              (run 3 demo_flags steady_env fresh_world) =
            Some (Some [Some (PInt 0), Some (PInt 1), Some (PInt 2), Some (PInt 3)])"
    by code_simp
  have "map_option fst (run 3 demo_flags steady_env fresh_world) = Some (Normal 3)"
    by code_simp
  then obtain w' where r: "run 3 demo_flags steady_env fresh_world = Some (Normal 3, w')"
    by auto
  have i64: "int64 (total_rounds demo_flags)" by (simp add: demo_flags_def int64_def)
  have sc: "scalars_only (PDict (evaluate_fn steady_env (calls ?ls) (state ?ls) True))"
    by (simp add: steady_env_def demo_env_def scalars_only_dict scalars_only_simps)
  from t i64 sc
  have acc: "summary_accepts (total_rounds demo_flags) (final_row demo_flags steady_env ?ls)"
    by blast
  from t acc have c1: "fst (final_evaluation demo_flags steady_env ?ls) = Normal (state ?ls)"
    by simp
  from t have c2: "round_of (final_row demo_flags steady_env ?ls) =
                     Some (PInt (total_rounds demo_flags))"
    by blast
  from t fd have c3: "cell (''eval/'' @ ''accuracy'') (final_row demo_flags steady_env ?ls) =
       map_of (dict_set (evaluate_fn steady_env (calls ?ls) (state ?ls) True) ''evaluate_secs''
                (PFloat (secs steady_env (calls ?ls) ''evaluate_secs''))) ''accuracy''"
    by blast
  from r rs have c4: "map_option (map round_of) (metrics_csv w') =
             Some [Some (PInt 0), Some (PInt 1), Some (PInt 2), Some (PInt 3)]"
    by simp
  from c1 c2 c3 ev st tr fr r c4 c5 c6 show ?thesis by (auto simp: demo_flags_def)
qed

end
